theory Spec2Isabelle
  imports Main
begin

section \<open>The file-scheme store loader of crypto/store/loader_file.c\<close>

text \<open>
  A shallow embedding of \<^verbatim>\<open>crypto/store/loader_file.c\<close>: the passphrase prompt, the six
  content handlers, the handler table, and the loader (\<^verbatim>\<open>file_open\<close>, \<^verbatim>\<open>file_load\<close>,
  \<^verbatim>\<open>file_eof\<close>, \<^verbatim>\<open>file_error\<close>, \<^verbatim>\<open>file_close\<close>).

  Everything the file calls but does not define (the ASN.1 and PKCS#12 codecs, the UI
  library, the BIO stream, the PEM reader, allocation) is a parameter: a field of one of
  the records \<open>codec_ext\<close> and \<open>bio_ext\<close>, or the \<open>UI_METHOD\<close> argument.  Decoded
  library objects (\<^verbatim>\<open>EVP_PKEY *\<close>, \<^verbatim>\<open>X509 *\<close>, ...) are opaque handles; the code never looks
  inside them, it only passes them on.
\<close>

subsection \<open>Objects, errors and effects\<close>

type_synonym EVP_PKEY = nat
type_synonym X509 = nat
type_synonym X509_CRL = nat
type_synonym PKCS12 = nat

text \<open>\<^verbatim>\<open>OSSL_STORE_INFO\<close>: the tagged union the handlers produce.  \<open>INFO_EMBEDDED\<close> carries
  the PEM name (possibly \<^verbatim>\<open>NULL\<close>) and the buffer of an inner blob.\<close>

datatype OSSL_STORE_INFO =
    INFO_PARAMS EVP_PKEY
  | INFO_PKEY EVP_PKEY
  | INFO_CERT X509
  | INFO_CRL X509_CRL
  | INFO_EMBEDDED "string option" string

text \<open>The error queue holds what \<^verbatim>\<open>OSSL_STOREerr\<close> pushes: function code, reason code,
  and the strings \<^verbatim>\<open>ERR_add_error_data\<close> attaches.\<close>

datatype err_func =
    F_FILE_GET_PASS | F_TRY_DECODE_PKCS12 | F_TRY_DECODE_PARAMS | F_FILE_OPEN
  | F_FILE_LOAD_TRY_DECODE

datatype err_reason =
    R_MALLOC_FAILURE | R_UI_LIB | R_EVP_LIB
  | R_UI_PROCESS_INTERRUPTED_OR_CANCELLED
  | R_PASSPHRASE_CALLBACK_ERROR
  | R_ERROR_VERIFYING_PKCS12_MAC
  | R_IS_NOT_A
  | R_AMBIGUOUS_CONTENT_TYPE
  | R_UNSUPPORTED_CONTENT_TYPE
  | R_URI_AUTHORITY_UNSUPPORTED
  | R_PATH_MUST_BE_ABSOLUTE

datatype err = OSSL_STOREerr err_func err_reason "string list"

text \<open>The calls a handler makes into the codec library, in the order it makes them.\<close>

datatype call =
    D2I_PKCS12
  | VERIFY_MAC "string option"
  | GET_PASS string
  | PARSE_PKCS12 string
  | D2I_X509_AUX
  | D2I_X509
  | D2I_X509_CRL
  | D2I_PUBKEY
  | D2I_PrivateKey int
  | PARAM_DECODE int

text \<open>A call through a \<^verbatim>\<open>NULL\<close> function pointer, or a read past the end of a string, ends
  the run; the string names the handler or the place.\<close>

datatype fault = NULL_CALL string | OUT_OF_BOUNDS string

subsection \<open>Password prompting\<close>

text \<open>What the UI library does for one prompt: \<^verbatim>\<open>UI_new\<close> or \<^verbatim>\<open>UI_construct_prompt\<close> returns
  \<^verbatim>\<open>NULL\<close>, \<^verbatim>\<open>UI_add_input_string\<close> returns 0, or \<^verbatim>\<open>UI_process\<close> returns a code and leaves the
  entered string in the buffer.  A UI method maps the prompt info and the maximal length
  it is given to that outcome.\<close>

datatype ui_outcome =
    UI_new_NULL
  | UI_construct_prompt_NULL
  | UI_add_input_string_0
  | UI_process int string

type_synonym UI_METHOD = "string \<Rightarrow> int \<Rightarrow> ui_outcome"

definition file_get_pass :: "UI_METHOD \<Rightarrow> int \<Rightarrow> string \<Rightarrow> string option \<times> err list" where
  "file_get_pass ui_method maxsize prompt_info =
     (case ui_method prompt_info (maxsize - 1) of
        UI_new_NULL \<Rightarrow> (None, [OSSL_STOREerr F_FILE_GET_PASS R_MALLOC_FAILURE []])
      | UI_construct_prompt_NULL \<Rightarrow> (None, [OSSL_STOREerr F_FILE_GET_PASS R_MALLOC_FAILURE []])
      | UI_add_input_string_0 \<Rightarrow> (None, [OSSL_STOREerr F_FILE_GET_PASS R_UI_LIB []])
      | UI_process rc pass \<Rightarrow>
          if rc = - 2 then
            (None, [OSSL_STOREerr F_FILE_GET_PASS R_UI_PROCESS_INTERRUPTED_OR_CANCELLED []])
          else if rc = - 1 then (None, [OSSL_STOREerr F_FILE_GET_PASS R_UI_LIB []])
          else (Some pass, []))"

text \<open>The buffer \<^verbatim>\<open>pass\<close> after \<^verbatim>\<open>file_get_pass\<close>: \<^verbatim>\<open>UI_process\<close> leaves the entered string there
  whatever it returns; when the prompt is never processed the buffer is as the caller gave
  it.\<close>

definition file_get_pass_buf :: "UI_METHOD \<Rightarrow> string \<Rightarrow> int \<Rightarrow> string \<Rightarrow> string" where
  "file_get_pass_buf ui_method pass maxsize prompt_info =
     (case ui_method prompt_info (maxsize - 1) of
        UI_process rc entered \<Rightarrow> entered
      | _ \<Rightarrow> pass)"

text \<open>\<^verbatim>\<open>file_get_pem_pass\<close> (lines 92-99): the PEM library's password callback.  It returns
  the length of the pass phrase, 0 when \<^verbatim>\<open>file_get_pass\<close> returned \<^verbatim>\<open>NULL\<close>, and leaves \<^verbatim>\<open>buf\<close> as
  \<^verbatim>\<open>file_get_pass\<close> left it.\<close>

definition file_get_pem_pass ::
  "UI_METHOD \<Rightarrow> string \<Rightarrow> string \<Rightarrow> int \<Rightarrow> (int \<times> string) \<times> err list" where
  "file_get_pem_pass ui_method prompt_info buf num =
     (case file_get_pass ui_method num prompt_info of
        (pass, es) \<Rightarrow>
          ((case pass of None \<Rightarrow> 0 | Some p \<Rightarrow> int (length p),
            file_get_pass_buf ui_method buf num prompt_info), es))"

subsection \<open>The codec library, as parameters\<close>

text \<open>\<^verbatim>\<open>EVP_PKEY_ASN1_METHOD\<close>, as far as the handlers read it: the key type, whether
  \<^verbatim>\<open>pkey_flags & ASN1_PKEY_ALIAS\<close> is set, and the parameter decoder (possibly \<^verbatim>\<open>NULL\<close>).\<close>

record ameth =
  pkey_id :: int
  pkey_flags_ALIAS :: bool
  param_decode :: "(string \<Rightarrow> EVP_PKEY option) option"

record codec_ext =
  d2i_PKCS12 :: "string \<Rightarrow> PKCS12 option"
  PKCS12_verify_mac :: "PKCS12 \<Rightarrow> string option \<Rightarrow> bool"
  PKCS12_parse :: "PKCS12 \<Rightarrow> string \<Rightarrow> (EVP_PKEY \<times> X509 \<times> X509 list) option"
  d2i_X509_AUX :: "string \<Rightarrow> X509 option"
  d2i_X509 :: "string \<Rightarrow> X509 option"
  d2i_X509_CRL :: "string \<Rightarrow> X509_CRL option"
  d2i_PUBKEY :: "string \<Rightarrow> EVP_PKEY option"
  d2i_PrivateKey :: "int \<Rightarrow> string \<Rightarrow> EVP_PKEY option"
  pem_check_suffix :: "string \<Rightarrow> string \<Rightarrow> int"
  EVP_PKEY_asn1_find_str :: "string \<Rightarrow> ameth option"
  EVP_PKEY_asn1_meths :: "ameth list"
  EVP_PKEY_set_type_str :: "string \<Rightarrow> ameth option"
  EVP_PKEY_set_type :: "int \<Rightarrow> ameth option"
  EVP_PKEY_new_ok :: bool
  OSSL_STORE_INFO_new_ok :: "OSSL_STORE_INFO \<Rightarrow> bool"
  sk_new_null_ok :: bool
  sk_push_ok :: "OSSL_STORE_INFO list \<Rightarrow> OSSL_STORE_INFO \<Rightarrow> bool"
  PEM_BUFSIZE :: int
  PEM_STRING_X509_OLD :: string
  PEM_STRING_X509 :: string
  PEM_STRING_X509_TRUSTED :: string
  PEM_STRING_X509_CRL :: string
  PEM_STRING_PUBLIC :: string

text \<open>
  \<^item> \<open>EVP_PKEY_asn1_meths\<close> lists \<^verbatim>\<open>EVP_PKEY_asn1_get0(i)\<close> for \<^verbatim>\<open>i < EVP_PKEY_asn1_get_count()\<close>.
  \<^item> \<open>EVP_PKEY_set_type_str\<close> and \<open>EVP_PKEY_set_type\<close> give the method that
    \<^verbatim>\<open>EVP_PKEY_get0_asn1\<close> reads back after a successful call, \<open>None\<close> when the call
    returns 0 or the method read back is \<^verbatim>\<open>NULL\<close>.
  \<^item> The \<open>_ok\<close> fields say whether an allocation succeeds.
  \<^item> A decoder given a \<^verbatim>\<open>NULL\<close> buffer of length 0 (as \<^verbatim>\<open>file_load_try_repeat\<close> passes)
    finds nothing to decode.
\<close>

definition d2i :: "(string \<Rightarrow> 'a option) \<Rightarrow> string option \<Rightarrow> 'a option" where
  "d2i dec blob = (case blob of None \<Rightarrow> None | Some b \<Rightarrow> dec b)"

definition OSSL_STORE_INFO_new :: "codec_ext \<Rightarrow> OSSL_STORE_INFO \<Rightarrow> OSSL_STORE_INFO option" where
  "OSSL_STORE_INFO_new cx i = (if OSSL_STORE_INFO_new_ok cx i then Some i else None)"

subsection \<open>Content handlers\<close>

text \<open>What one \<^verbatim>\<open>try_decode\<close> call leaves behind: the returned info (\<^verbatim>\<open>NULL\<close> is \<open>None\<close>),
  the value of \<^verbatim>\<open>*handler_ctx\<close> afterwards, the errors it raised and the codec calls it made.\<close>

record 'c decode_out =
  out_info :: "OSSL_STORE_INFO option"
  out_ctx :: "'c option"
  out_errs :: "err list"
  out_calls :: "call list"

text \<open>\<^verbatim>\<open>FILE_HANDLER\<close>.  \<^verbatim>\<open>try_decode\<close> gets the PEM name, the PEM header, the blob (its length
  is the list's) and \<^verbatim>\<open>*handler_ctx\<close>; \<^verbatim>\<open>eof\<close> and \<^verbatim>\<open>destroy_ctx\<close> may be \<^verbatim>\<open>NULL\<close>.
  \<^verbatim>\<open>destroy_ctx\<close> returns the value it leaves in \<^verbatim>\<open>*handler_ctx\<close>.\<close>

record 'c FILE_HANDLER =
  name :: string
  try_decode :: "string option \<Rightarrow> string option \<Rightarrow> string option \<Rightarrow> 'c option
                 \<Rightarrow> UI_METHOD \<Rightarrow> 'c decode_out"
  eof :: "('c option \<Rightarrow> bool) option"
  destroy_ctx :: "('c option \<Rightarrow> 'c option) option"
  repeatable :: bool

definition no_match :: "'c option \<Rightarrow> err list \<Rightarrow> call list \<Rightarrow> 'c decode_out" where
  "no_match pctx es cs = \<lparr>out_info = None, out_ctx = pctx, out_errs = es, out_calls = cs\<rparr>"

subsubsection \<open>PKCS12\<close>

type_synonym p12_ctx = "OSSL_STORE_INFO list"

text \<open>Lines 186-202: the pass phrase the MAC verifies under.\<close>

definition PKCS12_find_pass ::
  "codec_ext \<Rightarrow> UI_METHOD \<Rightarrow> PKCS12 \<Rightarrow> string option \<times> err list \<times> call list" where
  "PKCS12_find_pass cx ui_method p12 =
     (if PKCS12_verify_mac cx p12 (Some []) then (Some [], [], [VERIFY_MAC (Some [])])
      else if PKCS12_verify_mac cx p12 None then
        (Some [], [], [VERIFY_MAC (Some []), VERIFY_MAC None])
      else
        (case file_get_pass ui_method (PEM_BUFSIZE cx) ''PKCS12 import password'' of
           (None, es) \<Rightarrow>
             (None, es @ [OSSL_STOREerr F_TRY_DECODE_PKCS12 R_PASSPHRASE_CALLBACK_ERROR []],
              [VERIFY_MAC (Some []), VERIFY_MAC None, GET_PASS ''PKCS12 import password''])
         | (Some pass, es) \<Rightarrow>
             if \<not> PKCS12_verify_mac cx p12 (Some pass) then
               (None, es @ [OSSL_STOREerr F_TRY_DECODE_PKCS12 R_ERROR_VERIFYING_PKCS12_MAC []],
                [VERIFY_MAC (Some []), VERIFY_MAC None, GET_PASS ''PKCS12 import password'',
                 VERIFY_MAC (Some pass)])
             else
               (Some pass, es,
                [VERIFY_MAC (Some []), VERIFY_MAC None, GET_PASS ''PKCS12 import password'',
                 VERIFY_MAC (Some pass)])))"

text \<open>Lines 218-228: one info per chain certificate, pushed in chain order; \<open>None\<close> is
  \<^verbatim>\<open>ok = 0\<close>.\<close>

fun PKCS12_push_chain :: "codec_ext \<Rightarrow> p12_ctx \<Rightarrow> X509 list \<Rightarrow> p12_ctx option" where
  "PKCS12_push_chain cx ctx [] = Some ctx"
| "PKCS12_push_chain cx ctx (ca # chain) =
     (case OSSL_STORE_INFO_new cx (INFO_CERT ca) of
        None \<Rightarrow> None
      | Some si_ca \<Rightarrow>
          if \<not> sk_push_ok cx ctx si_ca then None
          else PKCS12_push_chain cx (ctx @ [si_ca]) chain)"

text \<open>Lines 209-239: the stack of infos built from a parsed container; \<open>None\<close> is
  \<^verbatim>\<open>ok = 0\<close>, after which everything is freed and \<^verbatim>\<open>ctx = NULL\<close>.\<close>

definition PKCS12_build_ctx :: "codec_ext \<Rightarrow> EVP_PKEY \<Rightarrow> X509 \<Rightarrow> X509 list \<Rightarrow> p12_ctx option" where
  "PKCS12_build_ctx cx pkey cert chain =
     (if \<not> sk_new_null_ok cx then None
      else
        (case OSSL_STORE_INFO_new cx (INFO_PKEY pkey) of
           None \<Rightarrow> None
         | Some si_pkey \<Rightarrow>
             if \<not> sk_push_ok cx [] si_pkey then None
             else
               (case OSSL_STORE_INFO_new cx (INFO_CERT cert) of
                  None \<Rightarrow> None
                | Some si_cert \<Rightarrow>
                    if \<not> sk_push_ok cx [si_pkey] si_cert then None
                    else PKCS12_push_chain cx [si_pkey, si_cert] chain)))"

text \<open>Lines 249-252: \<^verbatim>\<open>sk_OSSL_STORE_INFO_shift\<close> on the stack; the stack stays allocated
  when it becomes empty.\<close>

definition PKCS12_shift :: "p12_ctx \<Rightarrow> err list \<Rightarrow> call list \<Rightarrow> p12_ctx decode_out" where
  "PKCS12_shift ctx es cs =
     (case ctx of
        [] \<Rightarrow> \<lparr>out_info = None, out_ctx = Some [], out_errs = es, out_calls = cs\<rparr>
      | si # rest \<Rightarrow> \<lparr>out_info = Some si, out_ctx = Some rest, out_errs = es, out_calls = cs\<rparr>)"

definition try_decode_PKCS12 ::
  "codec_ext \<Rightarrow> string option \<Rightarrow> string option \<Rightarrow> string option \<Rightarrow> p12_ctx option
   \<Rightarrow> UI_METHOD \<Rightarrow> p12_ctx decode_out" where
  "try_decode_PKCS12 cx pem_name pem_header blob pctx ui_method =
     (case pctx of
        Some ctx \<Rightarrow> PKCS12_shift ctx [] []
      | None \<Rightarrow>
          if pem_name \<noteq> None then no_match None [] []
          else
            (case d2i (d2i_PKCS12 cx) blob of
               None \<Rightarrow> no_match None [] [D2I_PKCS12]
             | Some p12 \<Rightarrow>
                 (case PKCS12_find_pass cx ui_method p12 of
                    (None, es, cs) \<Rightarrow> no_match None es (D2I_PKCS12 # cs)
                  | (Some pass, es, cs) \<Rightarrow>
                      (case PKCS12_parse cx p12 pass of
                         None \<Rightarrow> no_match None es (D2I_PKCS12 # cs @ [PARSE_PKCS12 pass])
                       | Some (pkey, cert, chain) \<Rightarrow>
                           (case PKCS12_build_ctx cx pkey cert chain of
                              None \<Rightarrow> no_match None es (D2I_PKCS12 # cs @ [PARSE_PKCS12 pass])
                            | Some ctx \<Rightarrow>
                                PKCS12_shift ctx es
                                  (D2I_PKCS12 # cs @ [PARSE_PKCS12 pass]))))))"

definition eof_PKCS12 :: "p12_ctx option \<Rightarrow> bool" where
  "eof_PKCS12 ctx = (case ctx of None \<Rightarrow> True | Some st \<Rightarrow> length st = 0)"

definition destroy_ctx_PKCS12 :: "p12_ctx option \<Rightarrow> p12_ctx option" where
  "destroy_ctx_PKCS12 pctx = None"

definition PKCS12_handler :: "codec_ext \<Rightarrow> p12_ctx FILE_HANDLER" where
  "PKCS12_handler cx =
     \<lparr>name = ''PKCS12'', try_decode = try_decode_PKCS12 cx, eof = Some eof_PKCS12,
      destroy_ctx = Some destroy_ctx_PKCS12, repeatable = True\<rparr>"

subsubsection \<open>PrivateKey\<close>

text \<open>Lines 296-303: the first method that is not an alias and whose decoder accepts the
  blob.\<close>

fun PrivateKey_try_all ::
  "codec_ext \<Rightarrow> ameth list \<Rightarrow> string option \<Rightarrow> EVP_PKEY option \<times> call list" where
  "PrivateKey_try_all cx [] blob = (None, [])"
| "PrivateKey_try_all cx (am # ams) blob =
     (if pkey_flags_ALIAS am then PrivateKey_try_all cx ams blob
      else case d2i (d2i_PrivateKey cx (pkey_id am)) blob of
        Some pkey \<Rightarrow> (Some pkey, [D2I_PrivateKey (pkey_id am)])
      | None \<Rightarrow>
          (case PrivateKey_try_all cx ams blob of
             (r, cs) \<Rightarrow> (r, D2I_PrivateKey (pkey_id am) # cs)))"

definition try_decode_PrivateKey ::
  "codec_ext \<Rightarrow> string option \<Rightarrow> string option \<Rightarrow> string option \<Rightarrow> p12_ctx option
   \<Rightarrow> UI_METHOD \<Rightarrow> p12_ctx decode_out" where
  "try_decode_PrivateKey cx pem_name pem_header blob pctx ui_method =
     (case (case pem_name of
              Some nm \<Rightarrow>
                (let slen = pem_check_suffix cx nm ''PRIVATE KEY'' in
                 if slen > 0 then
                   (case EVP_PKEY_asn1_find_str cx (take (nat slen) nm) of
                      Some am \<Rightarrow>
                        (d2i (d2i_PrivateKey cx (pkey_id am)) blob, [D2I_PrivateKey (pkey_id am)])
                    | None \<Rightarrow> (None, []))
                 else (None, []))
            | None \<Rightarrow> PrivateKey_try_all cx (EVP_PKEY_asn1_meths cx) blob) of
        (None, cs) \<Rightarrow> no_match pctx [] cs
      | (Some pkey, cs) \<Rightarrow>
          \<lparr>out_info = OSSL_STORE_INFO_new cx (INFO_PKEY pkey), out_ctx = pctx, out_errs = [],
           out_calls = cs\<rparr>)"

definition PrivateKey_handler :: "codec_ext \<Rightarrow> p12_ctx FILE_HANDLER" where
  "PrivateKey_handler cx =
     \<lparr>name = ''PrivateKey'', try_decode = try_decode_PrivateKey cx, eof = None,
      destroy_ctx = None, repeatable = False\<rparr>"

subsubsection \<open>PUBKEY\<close>

definition try_decode_PUBKEY ::
  "codec_ext \<Rightarrow> string option \<Rightarrow> string option \<Rightarrow> string option \<Rightarrow> p12_ctx option
   \<Rightarrow> UI_METHOD \<Rightarrow> p12_ctx decode_out" where
  "try_decode_PUBKEY cx pem_name pem_header blob pctx ui_method =
     (if pem_name \<noteq> None \<and> pem_name \<noteq> Some (PEM_STRING_PUBLIC cx) then no_match pctx [] []
      else case d2i (d2i_PUBKEY cx) blob of
        Some pkey \<Rightarrow>
          \<lparr>out_info = OSSL_STORE_INFO_new cx (INFO_PKEY pkey), out_ctx = pctx, out_errs = [],
           out_calls = [D2I_PUBKEY]\<rparr>
      | None \<Rightarrow> no_match pctx [] [D2I_PUBKEY])"

definition PUBKEY_handler :: "codec_ext \<Rightarrow> p12_ctx FILE_HANDLER" where
  "PUBKEY_handler cx =
     \<lparr>name = ''PUBKEY'', try_decode = try_decode_PUBKEY cx, eof = None,
      destroy_ctx = None, repeatable = False\<rparr>"

subsubsection \<open>params\<close>

text \<open>Lines 366-368 and 378-380: the method's parameter decoder, when it has one.\<close>

definition params_decode_with :: "ameth \<Rightarrow> string option \<Rightarrow> EVP_PKEY option \<times> call list" where
  "params_decode_with am blob =
     (case param_decode am of
        None \<Rightarrow> (None, [])
      | Some dec \<Rightarrow> (d2i dec blob, [PARAM_DECODE (pkey_id am)]))"

text \<open>Lines 373-384.\<close>

fun params_try_all ::
  "codec_ext \<Rightarrow> ameth list \<Rightarrow> string option \<Rightarrow> EVP_PKEY option \<times> call list" where
  "params_try_all cx [] blob = (None, [])"
| "params_try_all cx (am # ams) blob =
     (if pkey_flags_ALIAS am then params_try_all cx ams blob
      else case (case EVP_PKEY_set_type cx (pkey_id am) of
                   None \<Rightarrow> (None, [])
                 | Some am' \<Rightarrow> params_decode_with am' blob) of
        (Some pkey, cs) \<Rightarrow> (Some pkey, cs)
      | (None, cs) \<Rightarrow>
          (case params_try_all cx ams blob of (r, cs') \<Rightarrow> (r, cs @ cs')))"

definition try_decode_params ::
  "codec_ext \<Rightarrow> string option \<Rightarrow> string option \<Rightarrow> string option \<Rightarrow> p12_ctx option
   \<Rightarrow> UI_METHOD \<Rightarrow> p12_ctx decode_out" where
  "try_decode_params cx pem_name pem_header blob pctx ui_method =
     (if \<not> EVP_PKEY_new_ok cx then
        no_match pctx [OSSL_STOREerr F_TRY_DECODE_PARAMS R_EVP_LIB []] []
      else case (case pem_name of
                   Some nm \<Rightarrow>
                     (let slen = pem_check_suffix cx nm ''PARAMETERS'' in
                      if slen > 0 then
                        (case EVP_PKEY_set_type_str cx (take (nat slen) nm) of
                           Some am \<Rightarrow> params_decode_with am blob
                         | None \<Rightarrow> (None, []))
                      else (None, []))
                 | None \<Rightarrow> params_try_all cx (EVP_PKEY_asn1_meths cx) blob) of
        (None, cs) \<Rightarrow> no_match pctx [] cs
      | (Some pkey, cs) \<Rightarrow>
          \<lparr>out_info = OSSL_STORE_INFO_new cx (INFO_PARAMS pkey), out_ctx = pctx, out_errs = [],
           out_calls = cs\<rparr>)"

definition params_handler :: "codec_ext \<Rightarrow> p12_ctx FILE_HANDLER" where
  "params_handler cx =
     \<lparr>name = ''params'', try_decode = try_decode_params cx, eof = None,
      destroy_ctx = None, repeatable = False\<rparr>"

subsubsection \<open>X509Certificate\<close>

text \<open>\<open>ignore_trusted\<close> tells whether the fallback to a plain certificate can be used.\<close>

definition try_decode_X509Certificate ::
  "codec_ext \<Rightarrow> string option \<Rightarrow> string option \<Rightarrow> string option \<Rightarrow> p12_ctx option
   \<Rightarrow> UI_METHOD \<Rightarrow> p12_ctx decode_out" where
  "try_decode_X509Certificate cx pem_name pem_header blob pctx ui_method =
     (let ignore_trusted = (pem_name \<noteq> Some (PEM_STRING_X509_TRUSTED cx)) in
      if pem_name \<noteq> None \<and> pem_name \<noteq> Some (PEM_STRING_X509_TRUSTED cx)
         \<and> pem_name \<noteq> Some (PEM_STRING_X509_OLD cx) \<and> pem_name \<noteq> Some (PEM_STRING_X509 cx)
      then no_match pctx [] []
      else case d2i (d2i_X509_AUX cx) blob of
        Some cert \<Rightarrow>
          \<lparr>out_info = OSSL_STORE_INFO_new cx (INFO_CERT cert), out_ctx = pctx, out_errs = [],
           out_calls = [D2I_X509_AUX]\<rparr>
      | None \<Rightarrow>
          if ignore_trusted then
            (case d2i (d2i_X509 cx) blob of
               Some cert \<Rightarrow>
                 \<lparr>out_info = OSSL_STORE_INFO_new cx (INFO_CERT cert), out_ctx = pctx,
                  out_errs = [], out_calls = [D2I_X509_AUX, D2I_X509]\<rparr>
             | None \<Rightarrow> no_match pctx [] [D2I_X509_AUX, D2I_X509])
          else no_match pctx [] [D2I_X509_AUX])"

definition X509Certificate_handler :: "codec_ext \<Rightarrow> p12_ctx FILE_HANDLER" where
  "X509Certificate_handler cx =
     \<lparr>name = ''X509Certificate'', try_decode = try_decode_X509Certificate cx, eof = None,
      destroy_ctx = None, repeatable = False\<rparr>"

subsubsection \<open>X509CRL\<close>

definition try_decode_X509CRL ::
  "codec_ext \<Rightarrow> string option \<Rightarrow> string option \<Rightarrow> string option \<Rightarrow> p12_ctx option
   \<Rightarrow> UI_METHOD \<Rightarrow> p12_ctx decode_out" where
  "try_decode_X509CRL cx pem_name pem_header blob pctx ui_method =
     (if pem_name \<noteq> None \<and> pem_name \<noteq> Some (PEM_STRING_X509_CRL cx) then no_match pctx [] []
      else case d2i (d2i_X509_CRL cx) blob of
        Some crl \<Rightarrow>
          \<lparr>out_info = OSSL_STORE_INFO_new cx (INFO_CRL crl), out_ctx = pctx, out_errs = [],
           out_calls = [D2I_X509_CRL]\<rparr>
      | None \<Rightarrow> no_match pctx [] [D2I_X509_CRL])"

definition X509CRL_handler :: "codec_ext \<Rightarrow> p12_ctx FILE_HANDLER" where
  "X509CRL_handler cx =
     \<lparr>name = ''X509CRL'', try_decode = try_decode_X509CRL cx, eof = None,
      destroy_ctx = None, repeatable = False\<rparr>"

subsubsection \<open>The handler table\<close>

definition file_handlers :: "codec_ext \<Rightarrow> p12_ctx FILE_HANDLER list" where
  "file_handlers cx =
     [PKCS12_handler cx, X509Certificate_handler cx, X509CRL_handler cx, params_handler cx,
      PUBKEY_handler cx, PrivateKey_handler cx]"

subsection \<open>The stream and the allocator, as parameters\<close>

type_synonym EVP_CIPHER_INFO = nat

text \<open>
  \<^item> \<open>PEM_read_bio\<close> gives the name, header and data of the next PEM record, or \<open>None\<close>
    when it returns a value \<open>\<le> 0\<close>, and the stream afterwards.
  \<^item> \<open>PEM_do_header\<close> gets the cipher info, the data and the password callback (from
    the buffer and its size to the return value and the buffer afterwards); it gives the
    data afterwards (\<open>None\<close> when it returns 0) and, when it called the callback, the
    buffer and the size it called it with.
  \<^item> \<open>asn1_d2i_read_bio\<close> gives the bytes of the next DER object, \<open>None\<close> when it
    returns a negative value.
  \<^item> \<open>BIO_buffer_peek\<close> gives the bytes it copied; it returns their number.
  \<^item> \<open>peekbuf_uninit\<close> is what the stack holds where \<^verbatim>\<open>peekbuf\<close> is placed.
  \<^item> \<open>WIN32\<close> says whether \<^verbatim>\<open>_WIN32\<close> is defined.
\<close>

record 'b bio_ext =
  PEM_read_bio :: "'b \<Rightarrow> (string \<times> string \<times> string) option \<times> 'b"
  PEM_get_EVP_CIPHER_INFO :: "string \<Rightarrow> EVP_CIPHER_INFO option"
  PEM_do_header :: "EVP_CIPHER_INFO \<Rightarrow> string \<Rightarrow> (string \<Rightarrow> int \<Rightarrow> int \<times> string)
                    \<Rightarrow> string option \<times> (string \<times> int) option"
  asn1_d2i_read_bio :: "'b \<Rightarrow> string option \<times> 'b"
  BIO_eof :: "'b \<Rightarrow> bool"
  BIO_new_file :: "string \<Rightarrow> 'b option"
  BIO_new_buffer_ok :: bool
  BIO_buffer_peek :: "'b \<Rightarrow> nat \<Rightarrow> string"
  OPENSSL_zalloc_ok :: bool
  peekbuf_uninit :: string
  WIN32 :: bool

subsection \<open>The loader\<close>

text \<open>\<^verbatim>\<open>struct ossl_store_loader_ctx_st\<close>.\<close>

record ('b, 'c) OSSL_STORE_LOADER_CTX =
  "file" :: 'b
  is_pem :: bool
  errcnt :: int
  last_handler :: "'c FILE_HANDLER option"
  last_handler_ctx :: "'c option"

text \<open>What the loader releases, in the order it does: an info given to
  \<^verbatim>\<open>OSSL_STORE_INFO_free\<close>, a handler context given to the \<^verbatim>\<open>destroy_ctx\<close> of the named
  handler, the stream given to \<^verbatim>\<open>BIO_free_all\<close>, the loader context given to
  \<^verbatim>\<open>OPENSSL_free\<close>.\<close>

datatype 'c event =
    EV_info_free OSSL_STORE_INFO
  | EV_destroy_ctx string "'c option"
  | EV_BIO_free_all
  | EV_free_loader_ctx

text \<open>The state outside the loader context: the error queue and the releases so far.\<close>

record 'c fx =
  errq :: "err list"
  log :: "'c event list"

definition raise_err :: "err list \<Rightarrow> 'c fx \<Rightarrow> 'c fx" where
  "raise_err es w = w\<lparr>errq := errq w @ es\<rparr>"

definition emit :: "'c event list \<Rightarrow> 'c fx \<Rightarrow> 'c fx" where
  "emit evs w = w\<lparr>log := log w @ evs\<rparr>"

text \<open>\<^verbatim>\<open>OSSL_STORE_INFO_free\<close>; freeing \<^verbatim>\<open>NULL\<close> does nothing.\<close>

definition info_free :: "OSSL_STORE_INFO option \<Rightarrow> 'c event list" where
  "info_free r = (case r of None \<Rightarrow> [] | Some i \<Rightarrow> [EV_info_free i])"

subsubsection \<open>file\_open\<close>

definition ascii_tolower :: "char \<Rightarrow> char" where
  "ascii_tolower c =
     (case map_of (zip ''ABCDEFGHIJKLMNOPQRSTUVWXYZ'' ''abcdefghijklmnopqrstuvwxyz'') c of
        None \<Rightarrow> c
      | Some l \<Rightarrow> l)"

text \<open>\<^verbatim>\<open>strstr(haystack, needle) != NULL\<close>.\<close>

definition strstr_found :: "string \<Rightarrow> string \<Rightarrow> bool" where
  "strstr_found haystack needle =
     list_ex (\<lambda>i. take (length needle) (drop i haystack) = needle) [0..<Suc (length haystack)]"

text \<open>Lines 503-533: the path of a locator.  Strings are the bytes before the terminating
  NUL, so \<^verbatim>\<open>strncmp(&uri[5], s, n) == 0\<close> with \<open>n\<close> the length of \<open>s\<close> is
  \<open>take n (drop 5 uri) = s\<close>, and \<^verbatim>\<open>path[0] != '/'\<close> is \<open>take 1 path \<noteq> ''/''\<close>.  Under
  \<^verbatim>\<open>_WIN32\<close> the code reads \<^verbatim>\<open>path[2]\<close>, which lies past the terminator when the path is
  \<^verbatim>\<open>/\<close>.\<close>

definition file_open_path :: "'b bio_ext \<Rightarrow> string \<Rightarrow> fault + err + string" where
  "file_open_path env uri =
     (if map ascii_tolower (take 5 uri) = ''file:'' then
        (case (if take 12 (drop 5 uri) = ''//localhost/'' then Some (drop 16 uri)
               else if take 3 (drop 5 uri) = ''///'' then Some (drop 7 uri)
               else if take 2 (drop 5 uri) \<noteq> ''//'' then Some (drop 5 uri)
               else None) of
           None \<Rightarrow> Inr (Inl (OSSL_STOREerr F_FILE_OPEN R_URI_AUTHORITY_UNSUPPORTED []))
         | Some path \<Rightarrow>
             if take 1 path \<noteq> ''/'' then
               Inr (Inl (OSSL_STOREerr F_FILE_OPEN R_PATH_MUST_BE_ABSOLUTE []))
             else if WIN32 env then
               (if length path < 2 then Inl (OUT_OF_BOUNDS ''path[2]'')
                else if take 1 (drop 2 path) = '':'' \<and> take 1 (drop 3 path) = ''/''
                then Inr (Inr (drop 1 path))
                else Inr (Inr path))
             else Inr (Inr path))
      else Inr (Inr uri))"

text \<open>Lines 548-552: \<^verbatim>\<open>peekbuf\<close> after the peek, read as a string.  Only
  \<^verbatim>\<open>peekbuf[sizeof(peekbuf)-1]\<close> is set to NUL.\<close>

definition file_open_sniff :: "'b bio_ext \<Rightarrow> 'b \<Rightarrow> bool" where
  "file_open_sniff env f =
     (let peeked = take 4095 (BIO_buffer_peek env f 4095) in
      length peeked > 0 \<and>
      strstr_found
        (takeWhile (\<lambda>c. c \<noteq> CHR 0x00)
           (take 4095 (peeked @ drop (length peeked) (peekbuf_uninit env))))
        ''-----BEGIN '')"

text \<open>\<^verbatim>\<open>file_open\<close> gives the loader context (\<open>None\<close> for \<^verbatim>\<open>NULL\<close>), the errors raised and
  the paths given to \<^verbatim>\<open>BIO_new_file\<close>.\<close>

definition file_open ::
  "'b bio_ext \<Rightarrow> string \<Rightarrow> fault + (('b, 'c) OSSL_STORE_LOADER_CTX option \<times> err list \<times> string list)"
  where
  "file_open env uri =
     (case file_open_path env uri of
        Inl f \<Rightarrow> Inl f
      | Inr (Inl e) \<Rightarrow> Inr (None, [e], [])
      | Inr (Inr path) \<Rightarrow>
          if \<not> OPENSSL_zalloc_ok env then
            Inr (None, [OSSL_STOREerr F_FILE_OPEN R_MALLOC_FAILURE []], [])
          else if \<not> BIO_new_buffer_ok env then Inr (None, [], [])
          else
            (case BIO_new_file env path of
               None \<Rightarrow> Inr (None, [], [path])
             | Some f \<Rightarrow>
                 Inr (Some \<lparr>file = f, is_pem = file_open_sniff env f, errcnt = 0,
                             last_handler = None, last_handler_ctx = None\<rparr>,
                      [], [path])))"

subsubsection \<open>file\_load\_try\_decode\<close>

text \<open>The variables of the loop over the handlers (lines 576-621).\<close>

record 'c pass_state =
  matchcount :: int
  result :: "OSSL_STORE_INFO option"
  handler_ctx :: "'c option"
  matching_handlers :: "'c FILE_HANDLER list"
  pass_fx :: "'c fx"

text \<open>Lines 590-620: one handler of the table.  Line 605 calls the \<^verbatim>\<open>destroy_ctx\<close> of the
  handler that has just matched, with no test that it is not \<^verbatim>\<open>NULL\<close>; line 615 tests.\<close>

definition file_load_try_handler ::
  "string option \<Rightarrow> string option \<Rightarrow> string \<Rightarrow> UI_METHOD \<Rightarrow> 'c FILE_HANDLER
   \<Rightarrow> 'c pass_state \<Rightarrow> fault + 'c pass_state" where
  "file_load_try_handler pem_name pem_header data ui_method handler st =
     (let out = try_decode handler pem_name pem_header (Some data) None ui_method;
          w = raise_err (out_errs out) (pass_fx st)
      in case out_info out of
        None \<Rightarrow>
          Inr (st\<lparr>pass_fx :=
                   raise_err [OSSL_STOREerr F_FILE_LOAD_TRY_DECODE R_IS_NOT_A [name handler]] w\<rparr>)
      | Some tmp_result \<Rightarrow>
          (case (if handler_ctx st \<noteq> None then
                   (case destroy_ctx handler of
                      None \<Rightarrow> Inl (NULL_CALL (name handler))
                    | Some d \<Rightarrow> Inr (emit [EV_destroy_ctx (name handler) (handler_ctx st)] w))
                 else Inr w) of
             Inl f \<Rightarrow> Inl f
           | Inr w1 \<Rightarrow>
               if matchcount st + 1 = 1 then
                 Inr (st\<lparr>matchcount := matchcount st + 1, result := Some tmp_result,
                         handler_ctx := out_ctx out,
                         matching_handlers := matching_handlers st @ [handler],
                         pass_fx := w1\<rparr>)
               else
                 Inr (st\<lparr>matchcount := matchcount st + 1, result := None,
                         handler_ctx := None,
                         matching_handlers := matching_handlers st @ [handler],
                         pass_fx :=
                           emit (info_free (result st) @ [EV_info_free tmp_result] @
                                 (if destroy_ctx handler \<noteq> None
                                  then [EV_destroy_ctx (name handler) (out_ctx out)] else []))
                             w1\<rparr>)))"

fun file_load_try_handlers ::
  "string option \<Rightarrow> string option \<Rightarrow> string \<Rightarrow> UI_METHOD \<Rightarrow> 'c FILE_HANDLER list
   \<Rightarrow> 'c pass_state \<Rightarrow> fault + 'c pass_state" where
  "file_load_try_handlers pem_name pem_header data ui_method [] st = Inr st"
| "file_load_try_handlers pem_name pem_header data ui_method (handler # rest) st =
     (case file_load_try_handler pem_name pem_header data ui_method handler st of
        Inl f \<Rightarrow> Inl f
      | Inr st' \<Rightarrow> file_load_try_handlers pem_name pem_header data ui_method rest st')"

text \<open>What \<^verbatim>\<open>file_load_try_decode\<close> leaves behind: the loader context (\<^verbatim>\<open>NULL\<close> is \<open>None\<close>),
  the returned info, \<^verbatim>\<open>*matchcount\<close>, the error queue and the releases.\<close>

record ('b, 'c) decode_ret =
  ret_ctx :: "('b, 'c) OSSL_STORE_LOADER_CTX option"
  ret_info :: "OSSL_STORE_INFO option"
  ret_matchcount :: int
  ret_fx :: "'c fx"

text \<open>Lines 575-642: one pass from \<^verbatim>\<open>again:\<close> to \<^verbatim>\<open>err:\<close>.  When the allocation of
  \<^verbatim>\<open>matching_handlers\<close> fails, \<^verbatim>\<open>*matchcount\<close> keeps the value it had.\<close>

definition file_load_try_decode_pass ::
  "'c FILE_HANDLER list \<Rightarrow> 'b bio_ext \<Rightarrow> ('b, 'c) OSSL_STORE_LOADER_CTX option
   \<Rightarrow> string option \<Rightarrow> string option \<Rightarrow> string \<Rightarrow> UI_METHOD \<Rightarrow> int \<Rightarrow> 'c fx
   \<Rightarrow> fault + ('b, 'c) decode_ret" where
  "file_load_try_decode_pass handlers env ctx pem_name pem_header data ui_method mc0 w0 =
     (if \<not> OPENSSL_zalloc_ok env then
        Inr \<lparr>ret_ctx = ctx, ret_info = None, ret_matchcount = mc0,
             ret_fx = raise_err [OSSL_STOREerr F_FILE_LOAD_TRY_DECODE R_MALLOC_FAILURE []] w0\<rparr>
      else
        (case file_load_try_handlers pem_name pem_header data ui_method handlers
                \<lparr>matchcount = 0, result = None, handler_ctx = None, matching_handlers = [],
                 pass_fx = w0\<rparr> of
           Inl f \<Rightarrow> Inl f
         | Inr st \<Rightarrow>
             (let w1 = (if matchcount st > 1
                        then raise_err
                               [OSSL_STOREerr F_FILE_LOAD_TRY_DECODE R_AMBIGUOUS_CONTENT_TYPE []]
                               (pass_fx st)
                        else pass_fx st)
              in if matchcount st = 0 then
                   Inr \<lparr>ret_ctx = ctx, ret_info = result st, ret_matchcount = matchcount st,
                        ret_fx = raise_err
                          [OSSL_STOREerr F_FILE_LOAD_TRY_DECODE R_UNSUPPORTED_CONTENT_TYPE []] w1\<rparr>
                 else
                   (case matching_handlers st of
                      [] \<Rightarrow> Inl (NULL_CALL ''matching_handlers[0]'')
                    | h0 # _ \<Rightarrow>
                        if repeatable h0 then
                          (case ctx of
                             None \<Rightarrow>
                               Inr \<lparr>ret_ctx = None, ret_info = None,
                                    ret_matchcount = matchcount st,
                                    ret_fx = emit (info_free (result st))
                                      (raise_err
                                         [OSSL_STOREerr F_FILE_LOAD_TRY_DECODE
                                            R_UNSUPPORTED_CONTENT_TYPE []] w1)\<rparr>
                           | Some c \<Rightarrow>
                               Inr \<lparr>ret_ctx = Some (c\<lparr>last_handler := Some h0,
                                                       last_handler_ctx := handler_ctx st\<rparr>),
                                    ret_info = result st, ret_matchcount = matchcount st,
                                    ret_fx = w1\<rparr>)
                        else
                          Inr \<lparr>ret_ctx = ctx, ret_info = result st,
                               ret_matchcount = matchcount st, ret_fx = w1\<rparr>))))"

text \<open>Lines 574-663: the passes, repeated from \<^verbatim>\<open>again:\<close> while the result is an embedded
  blob (lines 648-658, with the embedded name and buffer in place of the blob's and the
  same header).  The code has no bound on the number of passes, so the function is
  partial: \<open>None\<close> is a run that never returns.  \<^verbatim>\<open>ERR_clear_error\<close> empties the error
  queue when an info is returned.\<close>

partial_function (option) file_load_try_decode ::
  "'c FILE_HANDLER list \<Rightarrow> 'b bio_ext \<Rightarrow> ('b, 'c) OSSL_STORE_LOADER_CTX option
   \<Rightarrow> string option \<Rightarrow> string option \<Rightarrow> string \<Rightarrow> UI_METHOD \<Rightarrow> int \<Rightarrow> 'c fx
   \<Rightarrow> (fault + ('b, 'c) decode_ret) option" where
  "file_load_try_decode handlers env ctx pem_name pem_header data ui_method mc0 w0 =
     (case file_load_try_decode_pass handlers env ctx pem_name pem_header data ui_method mc0 w0 of
        Inl f \<Rightarrow> Some (Inl f)
      | Inr r \<Rightarrow>
          (case ret_info r of
             None \<Rightarrow> Some (Inr r)
           | Some (INFO_EMBEDDED new_pem_name new_mem) \<Rightarrow>
               file_load_try_decode handlers env (ret_ctx r) new_pem_name pem_header new_mem
                 ui_method (ret_matchcount r) (ret_fx r)
           | Some i \<Rightarrow> Some (Inr (r\<lparr>ret_fx := (ret_fx r)\<lparr>errq := []\<rparr>\<rparr>))))"

subsubsection \<open>file\_load\_try\_repeat\<close>

text \<open>The sticky handler is asked with no name, no header and no blob.  Lines 678-680
  call its \<^verbatim>\<open>destroy_ctx\<close> with no test that it is not \<^verbatim>\<open>NULL\<close>.\<close>

definition file_load_try_repeat ::
  "('b, 'c) OSSL_STORE_LOADER_CTX \<Rightarrow> UI_METHOD \<Rightarrow> 'c fx
   \<Rightarrow> fault + (('b, 'c) OSSL_STORE_LOADER_CTX \<times> OSSL_STORE_INFO option \<times> 'c fx)" where
  "file_load_try_repeat ctx ui_method w =
     (case last_handler ctx of
        None \<Rightarrow> Inr (ctx, None, w)
      | Some h \<Rightarrow>
          (let out = try_decode h None None None (last_handler_ctx ctx) ui_method;
               w1 = raise_err (out_errs out) w
           in case out_info out of
             Some r \<Rightarrow> Inr (ctx\<lparr>last_handler_ctx := out_ctx out\<rparr>, Some r, w1)
           | None \<Rightarrow>
               (case destroy_ctx h of
                  None \<Rightarrow> Inl (NULL_CALL (name h))
                | Some d \<Rightarrow>
                    Inr (ctx\<lparr>last_handler_ctx := None, last_handler := None\<rparr>, None,
                         emit [EV_destroy_ctx (name h) (out_ctx out)] w1))))"

subsubsection \<open>Reading one record\<close>

text \<open>\<^verbatim>\<open>file_fill_pem_pass_data\<close> is given the address of a local and returns 1.  The errors
  of \<^verbatim>\<open>file_get_pem_pass\<close> are raised when \<^verbatim>\<open>PEM_do_header\<close> calls it.\<close>

definition file_read_pem ::
  "'b bio_ext \<Rightarrow> 'b \<Rightarrow> UI_METHOD \<Rightarrow> (string \<times> string \<times> string) option \<times> 'b \<times> err list" where
  "file_read_pem env bp ui_method =
     (case PEM_read_bio env bp of
        (None, bp') \<Rightarrow> (None, bp', [])
      | (Some (pem_name, pem_header, data), bp') \<Rightarrow>
          if length pem_header > 10 then
            (case PEM_get_EVP_CIPHER_INFO env pem_header of
               None \<Rightarrow> (None, bp', [])
             | Some cipher \<Rightarrow>
                 (case PEM_do_header env cipher data
                         (\<lambda>buf num. fst (file_get_pem_pass ui_method ''PEM'' buf num)) of
                    (data', called) \<Rightarrow>
                      (let es = (case called of
                                   None \<Rightarrow> []
                                 | Some (buf, num) \<Rightarrow>
                                     snd (file_get_pem_pass ui_method ''PEM'' buf num))
                       in case data' of
                         None \<Rightarrow> (None, bp', es)
                       | Some d \<Rightarrow> (Some (pem_name, pem_header, d), bp', es))))
          else (Some (pem_name, pem_header, data), bp', []))"

definition file_read_asn1 :: "'b bio_ext \<Rightarrow> 'b \<Rightarrow> string option \<times> 'b" where
  "file_read_asn1 env bp = asn1_d2i_read_bio env bp"

subsubsection \<open>file\_error, file\_eof, file\_close\<close>

definition file_error :: "('b, 'c) OSSL_STORE_LOADER_CTX \<Rightarrow> bool" where
  "file_error ctx = (errcnt ctx > 0)"

text \<open>Line 791 calls the sticky handler's \<^verbatim>\<open>eof\<close> with no test that it is not \<^verbatim>\<open>NULL\<close>.\<close>

definition file_eof :: "'b bio_ext \<Rightarrow> ('b, 'c) OSSL_STORE_LOADER_CTX \<Rightarrow> fault + bool" where
  "file_eof env ctx =
     (case last_handler ctx of
        None \<Rightarrow> Inr (BIO_eof env (file ctx))
      | Some h \<Rightarrow>
          (case eof h of
             None \<Rightarrow> Inl (NULL_CALL (name h))
           | Some handler_eof \<Rightarrow>
               if \<not> handler_eof (last_handler_ctx ctx) then Inr False
               else Inr (BIO_eof env (file ctx))))"

text \<open>\<^verbatim>\<open>file_close\<close> gives its return value, the sticky pair as it leaves it, and the
  releases.\<close>

definition file_close ::
  "('b, 'c) OSSL_STORE_LOADER_CTX \<Rightarrow> 'c fx
   \<Rightarrow> fault + (int \<times> ('b, 'c) OSSL_STORE_LOADER_CTX \<times> 'c fx)" where
  "file_close ctx w =
     (case last_handler ctx of
        None \<Rightarrow> Inr (1, ctx, emit [EV_BIO_free_all, EV_free_loader_ctx] w)
      | Some h \<Rightarrow>
          (case destroy_ctx h of
             None \<Rightarrow> Inl (NULL_CALL (name h))
           | Some d \<Rightarrow>
               Inr (1, ctx\<lparr>last_handler_ctx := None, last_handler := None\<rparr>,
                    emit [EV_destroy_ctx (name h) (last_handler_ctx ctx), EV_BIO_free_all,
                          EV_free_loader_ctx] w)))"

subsubsection \<open>file\_load\<close>

text \<open>The variables of the loop of \<^verbatim>\<open>file_load\<close> (lines 745-774).\<close>

record ('b, 'c) load_state =
  ld_ctx :: "('b, 'c) OSSL_STORE_LOADER_CTX"
  ld_result :: "OSSL_STORE_INFO option"
  ld_matchcount :: int
  ld_fx :: "'c fx"

text \<open>Lines 751-764: the record reader the sniffed mode selects.  A PEM record has a name
  and a header, a raw one has neither.\<close>

definition file_load_read ::
  "'b bio_ext \<Rightarrow> ('b, 'c) OSSL_STORE_LOADER_CTX \<Rightarrow> UI_METHOD
   \<Rightarrow> (string option \<times> string option \<times> string) option \<times> 'b \<times> err list" where
  "file_load_read env ctx ui_method =
     (if is_pem ctx then
        (case file_read_pem env (file ctx) ui_method of
           (None, bp, es) \<Rightarrow> (None, bp, es)
         | (Some (pem_name, pem_header, data), bp, es) \<Rightarrow>
             (Some (Some pem_name, Some pem_header, data), bp, es))
      else
        (case file_read_asn1 env (file ctx) of
           (None, bp) \<Rightarrow> (None, bp, [])
         | (Some data, bp) \<Rightarrow> (Some (None, None, data), bp, [])))"

text \<open>Lines 746-773: the body of the loop.  A failed read jumps to \<^verbatim>\<open>err:\<close> and leaves
  \<^verbatim>\<open>matchcount\<close> and \<^verbatim>\<open>result\<close> as they were.  \<open>None\<close> is a dispatch that never returns.\<close>

definition file_load_body ::
  "'c FILE_HANDLER list \<Rightarrow> 'b bio_ext \<Rightarrow> UI_METHOD \<Rightarrow> ('b, 'c) load_state
   \<Rightarrow> (fault + ('b, 'c) load_state) option" where
  "file_load_body handlers env ui_method v =
     (case file_load_read env (ld_ctx v) ui_method of
        (rd, bp, es) \<Rightarrow>
          (let ctx1 = (ld_ctx v)\<lparr>file := bp\<rparr>;
               w1 = raise_err es (ld_fx v)
           in case rd of
             None \<Rightarrow>
               (case file_eof env ctx1 of
                  Inl f \<Rightarrow> Some (Inl f)
                | Inr at_eof \<Rightarrow>
                    Some (Inr (v\<lparr>ld_ctx := (if \<not> at_eof then ctx1\<lparr>errcnt := errcnt ctx1 + 1\<rparr>
                                             else ctx1),
                                  ld_fx := w1\<rparr>)))
           | Some (pem_name, pem_header, data) \<Rightarrow>
               (case file_load_try_decode handlers env (Some ctx1) pem_name pem_header data
                       ui_method (- 1) w1 of
                  None \<Rightarrow> None
                | Some (Inl f) \<Rightarrow> Some (Inl f)
                | Some (Inr r) \<Rightarrow>
                    Some (Inr \<lparr>ld_ctx = (case ret_ctx r of None \<Rightarrow> ctx1 | Some c \<Rightarrow> c),
                               ld_result = ret_info r, ld_matchcount = ret_matchcount r,
                               ld_fx = ret_fx r\<rparr>))))"

text \<open>Line 774: \<^verbatim>\<open>matchcount == 0 && !file_eof(ctx) && !file_error(ctx)\<close>.\<close>

definition file_load_continue :: "'b bio_ext \<Rightarrow> ('b, 'c) load_state \<Rightarrow> fault + bool" where
  "file_load_continue env v =
     (if ld_matchcount v = 0 then
        (case file_eof env (ld_ctx v) of
           Inl f \<Rightarrow> Inl f
         | Inr at_eof \<Rightarrow> Inr (\<not> at_eof \<and> \<not> file_error (ld_ctx v)))
      else Inr False)"

text \<open>The loop itself.  Nothing in the code bounds the number of records a stream
  yields, so the function is partial.\<close>

partial_function (option) file_load_loop ::
  "'c FILE_HANDLER list \<Rightarrow> 'b bio_ext \<Rightarrow> UI_METHOD \<Rightarrow> ('b, 'c) load_state
   \<Rightarrow> (fault + ('b, 'c) load_state) option" where
  "file_load_loop handlers env ui_method v =
     (case file_load_body handlers env ui_method v of
        None \<Rightarrow> None
      | Some (Inl f) \<Rightarrow> Some (Inl f)
      | Some (Inr v') \<Rightarrow>
          (case file_load_continue env v' of
             Inl f \<Rightarrow> Some (Inl f)
           | Inr again \<Rightarrow>
               if again then file_load_loop handlers env ui_method v' else Some (Inr v')))"

text \<open>\<^verbatim>\<open>file_load\<close> gives the loader context, the returned info and the state outside;
  \<open>ld_matchcount\<close> is the local \<^verbatim>\<open>matchcount\<close> at the return.\<close>

definition file_load ::
  "'c FILE_HANDLER list \<Rightarrow> 'b bio_ext \<Rightarrow> ('b, 'c) OSSL_STORE_LOADER_CTX \<Rightarrow> UI_METHOD \<Rightarrow> 'c fx
   \<Rightarrow> (fault + ('b, 'c) load_state) option" where
  "file_load handlers env ctx ui_method w =
     (case file_load_try_repeat ctx ui_method w of
        Inl f \<Rightarrow> Some (Inl f)
      | Inr (ctx1, res, w1) \<Rightarrow>
          if res \<noteq> None then
            Some (Inr \<lparr>ld_ctx = ctx1, ld_result = res, ld_matchcount = - 1, ld_fx = w1\<rparr>)
          else if file_error ctx1 then
            Some (Inr \<lparr>ld_ctx = ctx1, ld_result = None, ld_matchcount = - 1, ld_fx = w1\<rparr>)
          else
            (case file_load_loop handlers env ui_method
                    \<lparr>ld_ctx = ctx1, ld_result = None, ld_matchcount = - 1, ld_fx = w1\<rparr> of
               None \<Rightarrow> None
             | Some (Inl f) \<Rightarrow> Some (Inl f)
             | Some (Inr v) \<Rightarrow>
                 if ld_matchcount v > 1 then Some (Inr (v\<lparr>ld_result := None\<rparr>))
                 else Some (Inr v)))"

subsection \<open>Successive calls\<close>

text \<open>What a caller sees who calls \<^verbatim>\<open>file_load\<close> \<open>n\<close> times in a row on the same loader: the
  infos returned, in order (\<open>None\<close> for \<^verbatim>\<open>NULL\<close>), and the state after the last call.\<close>

fun successive_loads ::
  "'c FILE_HANDLER list \<Rightarrow> 'b bio_ext \<Rightarrow> UI_METHOD \<Rightarrow> nat \<Rightarrow> ('b, 'c) OSSL_STORE_LOADER_CTX
   \<Rightarrow> 'c fx
   \<Rightarrow> (fault + (OSSL_STORE_INFO option list \<times> ('b, 'c) OSSL_STORE_LOADER_CTX \<times> 'c fx)) option"
  where
  "successive_loads handlers env ui_method 0 ctx w = Some (Inr ([], ctx, w))"
| "successive_loads handlers env ui_method (Suc n) ctx w =
     (case file_load handlers env ctx ui_method w of
        None \<Rightarrow> None
      | Some (Inl f) \<Rightarrow> Some (Inl f)
      | Some (Inr v) \<Rightarrow>
          (case successive_loads handlers env ui_method n (ld_ctx v) (ld_fx v) of
             None \<Rightarrow> None
           | Some (Inl f) \<Rightarrow> Some (Inl f)
           | Some (Inr (rs, ctx', w')) \<Rightarrow> Some (Inr (ld_result v # rs, ctx', w'))))"

subsection \<open>The sticky pair\<close>

text \<open>The sticky pair is consistent when a context is held only together with its handler.

  The pair has been set by a dispatch (lines 636-637) when, for some blob, the handler is
  the first handler of the table that accepts the blob, that handler is repeatable, and
  the context is what the loop over the handlers left in \<^verbatim>\<open>handler_ctx\<close>: the context that
  handler's \<^verbatim>\<open>try_decode\<close> produced when no other handler accepts the blob, \<^verbatim>\<open>NULL\<close> when
  another does (line 617).

  A step of the pair either leaves both fields as they are or sets both in that way.  A
  loader state is reachable when \<^verbatim>\<open>file_open\<close> returned it or \<^verbatim>\<open>file_load\<close> left it behind in
  a reachable state.\<close>

definition sticky_pair_ok :: "('b, 'c) OSSL_STORE_LOADER_CTX \<Rightarrow> bool" where
  "sticky_pair_ok ctx = (last_handler ctx = None \<longrightarrow> last_handler_ctx ctx = None)"

definition accepting ::
  "'c FILE_HANDLER list \<Rightarrow> string option \<Rightarrow> string option \<Rightarrow> string \<Rightarrow> UI_METHOD
   \<Rightarrow> 'c FILE_HANDLER list" where
  "accepting handlers pem_name pem_header data ui_method =
     filter (\<lambda>h. out_info (try_decode h pem_name pem_header (Some data) None ui_method) \<noteq> None)
       handlers"

definition sticky_pair_set ::
  "'c FILE_HANDLER list \<Rightarrow> UI_METHOD \<Rightarrow> ('b, 'c) OSSL_STORE_LOADER_CTX \<Rightarrow> bool" where
  "sticky_pair_set handlers ui_method ctx' =
     (\<exists>pem_name pem_header data h others.
        accepting handlers pem_name pem_header data ui_method = h # others
        \<and> repeatable h \<and> last_handler ctx' = Some h
        \<and> last_handler_ctx ctx'
            = (if others = []
               then out_ctx (try_decode h pem_name pem_header (Some data) None ui_method)
               else None))"

definition sticky_step ::
  "'c FILE_HANDLER list \<Rightarrow> UI_METHOD \<Rightarrow> ('b, 'c) OSSL_STORE_LOADER_CTX
   \<Rightarrow> ('b, 'c) OSSL_STORE_LOADER_CTX \<Rightarrow> bool" where
  "sticky_step handlers ui_method ctx ctx' =
     ((last_handler ctx' = last_handler ctx \<and> last_handler_ctx ctx' = last_handler_ctx ctx)
      \<or> sticky_pair_set handlers ui_method ctx')"

inductive loader_reachable ::
  "'c FILE_HANDLER list \<Rightarrow> 'b bio_ext \<Rightarrow> ('b, 'c) OSSL_STORE_LOADER_CTX \<Rightarrow> bool"
  for handlers env where
    opened: "file_open env uri = Inr (Some ctx, es, paths) \<Longrightarrow> loader_reachable handlers env ctx"
  | loaded: "loader_reachable handlers env ctx \<Longrightarrow>
             file_load handlers env ctx ui_method w = Some (Inr v) \<Longrightarrow>
             loader_reachable handlers env (ld_ctx v)"

section \<open>Concrete inputs\<close>

text \<open>A codec library that accepts nothing, with the PEM names of \<^verbatim>\<open>openssl/pem.h\<close> and
  an allocator that never fails; the inputs below change single fields of it.\<close>

definition codec_none :: codec_ext where
  "codec_none =
     \<lparr>d2i_PKCS12 = (\<lambda>b. None), PKCS12_verify_mac = (\<lambda>p pass. False),
      PKCS12_parse = (\<lambda>p pass. None), d2i_X509_AUX = (\<lambda>b. None), d2i_X509 = (\<lambda>b. None),
      d2i_X509_CRL = (\<lambda>b. None), d2i_PUBKEY = (\<lambda>b. None), d2i_PrivateKey = (\<lambda>t b. None),
      pem_check_suffix = (\<lambda>nm suffix. 0), EVP_PKEY_asn1_find_str = (\<lambda>nm. None),
      EVP_PKEY_asn1_meths = [], EVP_PKEY_set_type_str = (\<lambda>nm. None),
      EVP_PKEY_set_type = (\<lambda>t. None), EVP_PKEY_new_ok = True,
      OSSL_STORE_INFO_new_ok = (\<lambda>i. True), sk_new_null_ok = True,
      sk_push_ok = (\<lambda>st i. True), PEM_BUFSIZE = 1024,
      PEM_STRING_X509_OLD = ''X509 CERTIFICATE'', PEM_STRING_X509 = ''CERTIFICATE'',
      PEM_STRING_X509_TRUSTED = ''TRUSTED CERTIFICATE'', PEM_STRING_X509_CRL = ''X509 CRL'',
      PEM_STRING_PUBLIC = ''PUBLIC KEY''\<rparr>"

definition ui_cancel :: UI_METHOD where
  "ui_cancel prompt_info maxsize = UI_process (- 2) []"

definition ui_secret :: UI_METHOD where
  "ui_secret prompt_info maxsize = UI_process 0 ''secret''"

definition codec_plain_cert :: codec_ext where
  "codec_plain_cert = codec_none\<lparr>d2i_X509 := (\<lambda>b. if b = ''der'' then Some 7 else None)\<rparr>"

definition codec_p12 :: codec_ext where
  "codec_p12 =
     codec_none\<lparr>d2i_PKCS12 := (\<lambda>b. if b = ''pfx'' then Some 1 else None),
                 PKCS12_verify_mac := (\<lambda>p pass. p = 1 \<and> pass = Some ''secret''),
                 PKCS12_parse := (\<lambda>p pass. if p = 1 \<and> pass = ''secret''
                                            then Some (10, 20, [21, 22]) else None)\<rparr>"

definition ui_wrong :: UI_METHOD where
  "ui_wrong prompt_info maxsize = UI_process 0 ''guess''"

text \<open>A stream that is the list of the records still to be read: reading takes the
  first, and the end is reached when none is left.  One file exists.\<close>

type_synonym list_bio = "(string \<times> string \<times> string) list"

definition list_env :: "list_bio bio_ext" where
  "list_env =
     \<lparr>PEM_read_bio = (\<lambda>bp. case bp of [] \<Rightarrow> (None, []) | r # rest \<Rightarrow> (Some r, rest)),
      PEM_get_EVP_CIPHER_INFO = (\<lambda>hdr. None),
      PEM_do_header = (\<lambda>cipher data cb. (None, None)),
      asn1_d2i_read_bio =
        (\<lambda>bp. case bp of [] \<Rightarrow> (None, []) | (nm, hdr, data) # rest \<Rightarrow> (Some data, rest)),
      BIO_eof = (\<lambda>bp. bp = []),
      BIO_new_file = (\<lambda>path. if path = ''/store/bundle.p12'' then Some [([], [], ''pfx'')]
                               else None),
      BIO_new_buffer_ok = True,
      BIO_buffer_peek = (\<lambda>bp n. case bp of [] \<Rightarrow> [] | (nm, hdr, data) # rest \<Rightarrow> take n data),
      OPENSSL_zalloc_ok = True,
      peekbuf_uninit = [],
      WIN32 = False\<rparr>"

definition ctx_p12_pending :: "(list_bio, p12_ctx) OSSL_STORE_LOADER_CTX" where
  "ctx_p12_pending =
     \<lparr>file = [], is_pem = False, errcnt = 0, last_handler = Some (PKCS12_handler codec_p12),
      last_handler_ctx = Some [INFO_CERT 20]\<rparr>"

definition ctx_fresh :: "(list_bio, p12_ctx) OSSL_STORE_LOADER_CTX" where
  "ctx_fresh =
     \<lparr>file = [], is_pem = False, errcnt = 0, last_handler = None, last_handler_ctx = None\<rparr>"

text \<open>Loader states and the state outside the loader.\<close>

definition w_empty :: "p12_ctx fx" where
  "w_empty = \<lparr>errq = [], log = []\<rparr>"

definition ctx_p12_exhausted :: "(list_bio, p12_ctx) OSSL_STORE_LOADER_CTX" where
  "ctx_p12_exhausted =
     \<lparr>file = [([], [], ''pfx'')], is_pem = False, errcnt = 0,
      last_handler = Some (PKCS12_handler codec_p12), last_handler_ctx = Some []\<rparr>"

definition ctx_p12_unread :: "(list_bio, p12_ctx) OSSL_STORE_LOADER_CTX" where
  "ctx_p12_unread =
     \<lparr>file = [([], [], ''pfx'')], is_pem = False, errcnt = 0, last_handler = None,
      last_handler_ctx = None\<rparr>"

text \<open>A codec library in which one blob is both a PKCS#12 container and a certificate.\<close>

definition codec_bundle_and_cert :: codec_ext where
  "codec_bundle_and_cert =
     codec_none\<lparr>d2i_PKCS12 := (\<lambda>b. if b = ''pfx'' then Some 1 else None),
                 PKCS12_verify_mac := (\<lambda>p pass. pass = Some []),
                 PKCS12_parse := (\<lambda>p pass. Some (10, 20, [])),
                 d2i_X509_AUX := (\<lambda>b. if b = ''pfx'' then Some 30 else None)\<rparr>"

text \<open>The loader after it has read the bundle and returned its key.\<close>

definition ctx_p12_adopted :: "(list_bio, p12_ctx) OSSL_STORE_LOADER_CTX" where
  "ctx_p12_adopted =
     \<lparr>file = [], is_pem = False, errcnt = 0, last_handler = Some (PKCS12_handler codec_p12),
      last_handler_ctx = Some [INFO_CERT 20, INFO_CERT 21, INFO_CERT 22]\<rparr>"

section \<open>Properties\<close>

subsection \<open>The PKCS12 handler\<close>

lemma PKCS12_find_pass_cases:
  "PKCS12_find_pass cx ui_method p12 = (r, es, cs) \<Longrightarrow>
     cs = (if PKCS12_verify_mac cx p12 (Some []) then [VERIFY_MAC (Some [])]
           else if PKCS12_verify_mac cx p12 None then [VERIFY_MAC (Some []), VERIFY_MAC None]
           else case fst (file_get_pass ui_method (PEM_BUFSIZE cx) ''PKCS12 import password'') of
                  None \<Rightarrow> [VERIFY_MAC (Some []), VERIFY_MAC None,
                            GET_PASS ''PKCS12 import password'']
                | Some pass \<Rightarrow> [VERIFY_MAC (Some []), VERIFY_MAC None,
                                GET_PASS ''PKCS12 import password'', VERIFY_MAC (Some pass)])
     \<and> (r = None \<longleftrightarrow>
          \<not> PKCS12_verify_mac cx p12 (Some []) \<and> \<not> PKCS12_verify_mac cx p12 None
          \<and> (case fst (file_get_pass ui_method (PEM_BUFSIZE cx) ''PKCS12 import password'') of
                None \<Rightarrow> True
              | Some pass \<Rightarrow> \<not> PKCS12_verify_mac cx p12 (Some pass)))
     \<and> (\<forall>pass. r = Some pass \<longrightarrow>
          (if PKCS12_verify_mac cx p12 (Some []) \<or> PKCS12_verify_mac cx p12 None then pass = []
           else fst (file_get_pass ui_method (PEM_BUFSIZE cx) ''PKCS12 import password'')
                  = Some pass \<and> PKCS12_verify_mac cx p12 (Some pass)))"
  by (auto simp: PKCS12_find_pass_def split: if_splits prod.splits option.splits)

lemma PKCS12_shift_calls: "out_calls (PKCS12_shift ctx es cs) = cs"
  by (simp add: PKCS12_shift_def split: list.splits)

lemma try_decode_PKCS12_calls:
  "pem_name = None \<Longrightarrow> d2i (d2i_PKCS12 cx) blob = Some p12 \<Longrightarrow>
   PKCS12_find_pass cx ui_method p12 = (r, es, cs) \<Longrightarrow>
   out_calls (try_decode_PKCS12 cx pem_name pem_header blob None ui_method)
     = D2I_PKCS12 # cs @ (case r of None \<Rightarrow> [] | Some pass \<Rightarrow> [PARSE_PKCS12 pass])"
  by (simp add: try_decode_PKCS12_def no_match_def PKCS12_shift_calls
           split: option.splits prod.splits)

text \<open>C7: on its first call for a blob the PKCS12 handler matches only when there is no
  declared name and the bytes parse as a PKCS#12 container.  Before \<^verbatim>\<open>PKCS12_parse\<close> it
  verifies the MAC under the empty pass phrase, then under the \<^verbatim>\<open>NULL\<close> pass phrase, then
  under the pass phrase \<^verbatim>\<open>file_get_pass\<close> obtains, stopping at the first that verifies;
  \<^verbatim>\<open>PKCS12_parse\<close> is called only after a MAC check has succeeded.  When the prompt
  fails, or the pass phrase it gives does not verify, the handler returns no info, leaves
  no context and never unpacks.\<close>

theorem try_decode_PKCS12_mac_before_unpack:
  "(out_info (try_decode_PKCS12 cx pem_name pem_header blob None ui_method) \<noteq> None
      \<longrightarrow> pem_name = None \<and> d2i (d2i_PKCS12 cx) blob \<noteq> None)
   \<and> (\<forall>p12. pem_name = None \<and> d2i (d2i_PKCS12 cx) blob = Some p12 \<longrightarrow>
        (\<exists>unpack.
           out_calls (try_decode_PKCS12 cx pem_name pem_header blob None ui_method)
             = D2I_PKCS12 #
               (if PKCS12_verify_mac cx p12 (Some []) then [VERIFY_MAC (Some [])]
                else if PKCS12_verify_mac cx p12 None
                  then [VERIFY_MAC (Some []), VERIFY_MAC None]
                else case fst (file_get_pass ui_method (PEM_BUFSIZE cx)
                                 ''PKCS12 import password'') of
                       None \<Rightarrow> [VERIFY_MAC (Some []), VERIFY_MAC None,
                                 GET_PASS ''PKCS12 import password'']
                     | Some pass \<Rightarrow> [VERIFY_MAC (Some []), VERIFY_MAC None,
                                     GET_PASS ''PKCS12 import password'',
                                     VERIFY_MAC (Some pass)])
               @ unpack
           \<and> (unpack = []
               \<or> (\<exists>pass. unpack = [PARSE_PKCS12 pass]
                    \<and> (PKCS12_verify_mac cx p12 (Some pass)
                        \<or> pass = [] \<and> PKCS12_verify_mac cx p12 None))))
        \<and> (\<not> PKCS12_verify_mac cx p12 (Some []) \<and> \<not> PKCS12_verify_mac cx p12 None
            \<and> (case fst (file_get_pass ui_method (PEM_BUFSIZE cx)
                            ''PKCS12 import password'') of
                  None \<Rightarrow> True
                | Some pass \<Rightarrow> \<not> PKCS12_verify_mac cx p12 (Some pass))
            \<longrightarrow> out_info (try_decode_PKCS12 cx pem_name pem_header blob None ui_method) = None
                \<and> out_ctx (try_decode_PKCS12 cx pem_name pem_header blob None ui_method) = None
                \<and> (\<forall>pass. PARSE_PKCS12 pass \<notin> set (out_calls
                      (try_decode_PKCS12 cx pem_name pem_header blob None ui_method)))))"
proof (intro conjI allI impI)
  assume "out_info (try_decode_PKCS12 cx pem_name pem_header blob None ui_method) \<noteq> None"
  then show "pem_name = None"
    by (auto simp: try_decode_PKCS12_def no_match_def split: if_splits)
next
  assume "out_info (try_decode_PKCS12 cx pem_name pem_header blob None ui_method) \<noteq> None"
  then show "d2i (d2i_PKCS12 cx) blob \<noteq> None"
    by (cases "d2i (d2i_PKCS12 cx) blob")
       (auto simp: try_decode_PKCS12_def no_match_def split: if_splits)
next
  fix p12
  assume h: "pem_name = None \<and> d2i (d2i_PKCS12 cx) blob = Some p12"
  obtain r es cs where fp: "PKCS12_find_pass cx ui_method p12 = (r, es, cs)"
    by (cases "PKCS12_find_pass cx ui_method p12") auto
  note c = PKCS12_find_pass_cases [OF fp]
  let ?mac = "if PKCS12_verify_mac cx p12 (Some []) then [VERIFY_MAC (Some [])]
                else if PKCS12_verify_mac cx p12 None
                  then [VERIFY_MAC (Some []), VERIFY_MAC None]
                else case fst (file_get_pass ui_method (PEM_BUFSIZE cx)
                                 ''PKCS12 import password'') of
                       None \<Rightarrow> [VERIFY_MAC (Some []), VERIFY_MAC None,
                                 GET_PASS ''PKCS12 import password'']
                     | Some pass \<Rightarrow> [VERIFY_MAC (Some []), VERIFY_MAC None,
                                     GET_PASS ''PKCS12 import password'',
                                     VERIFY_MAC (Some pass)]"
  let ?out = "try_decode_PKCS12 cx pem_name pem_header blob None ui_method"
  have cs: "?mac = cs" using c by simp
  have calls: "out_calls ?out
                 = D2I_PKCS12 # cs @ (case r of None \<Rightarrow> [] | Some pass \<Rightarrow> [PARSE_PKCS12 pass])"
    using h fp by (intro try_decode_PKCS12_calls) auto
  have v: "\<forall>pass. r = Some pass \<longrightarrow>
             PKCS12_verify_mac cx p12 (Some pass) \<or> pass = [] \<and> PKCS12_verify_mac cx p12 None"
    using c by (auto split: if_splits)
  show "\<exists>unpack. out_calls ?out = D2I_PKCS12 # ?mac @ unpack
           \<and> (unpack = []
               \<or> (\<exists>pass. unpack = [PARSE_PKCS12 pass]
                    \<and> (PKCS12_verify_mac cx p12 (Some pass)
                        \<or> pass = [] \<and> PKCS12_verify_mac cx p12 None)))"
    unfolding cs calls using v by (cases r) auto
next
  fix p12
  assume h: "pem_name = None \<and> d2i (d2i_PKCS12 cx) blob = Some p12"
    and f: "\<not> PKCS12_verify_mac cx p12 (Some []) \<and> \<not> PKCS12_verify_mac cx p12 None
            \<and> (case fst (file_get_pass ui_method (PEM_BUFSIZE cx)
                            ''PKCS12 import password'') of
                  None \<Rightarrow> True
                | Some pass \<Rightarrow> \<not> PKCS12_verify_mac cx p12 (Some pass))"
  obtain r es cs where fp: "PKCS12_find_pass cx ui_method p12 = (r, es, cs)"
    by (cases "PKCS12_find_pass cx ui_method p12") auto
  from PKCS12_find_pass_cases [OF fp] f have r: "r = None" by simp
  have cs: "\<forall>pass. PARSE_PKCS12 pass \<notin> set cs"
    using PKCS12_find_pass_cases [OF fp] f by (auto split: option.splits)
  have all: "out_info (try_decode_PKCS12 cx pem_name pem_header blob None ui_method) = None
        \<and> out_ctx (try_decode_PKCS12 cx pem_name pem_header blob None ui_method) = None
        \<and> (\<forall>pass. PARSE_PKCS12 pass \<notin> set (out_calls
                      (try_decode_PKCS12 cx pem_name pem_header blob None ui_method)))"
    using h fp r cs by (simp add: try_decode_PKCS12_def no_match_def)
  from all show "out_info (try_decode_PKCS12 cx pem_name pem_header blob None ui_method) = None"
    by simp
  from all show "out_ctx (try_decode_PKCS12 cx pem_name pem_header blob None ui_method) = None"
    by simp
  fix pass
  from all show "PARSE_PKCS12 pass \<notin> set (out_calls
                      (try_decode_PKCS12 cx pem_name pem_header blob None ui_method))"
    by simp
qed

theorem try_decode_PKCS12_mac_before_unpack_witness:
  "d2i (d2i_PKCS12 codec_p12) (Some ''pfx'') = Some 1
   \<and> \<not> PKCS12_verify_mac codec_p12 1 (Some []) \<and> \<not> PKCS12_verify_mac codec_p12 1 None
   \<and> fst (file_get_pass ui_wrong (PEM_BUFSIZE codec_p12) ''PKCS12 import password'')
       = Some ''guess''
   \<and> \<not> PKCS12_verify_mac codec_p12 1 (Some ''guess'')
   \<and> out_info (try_decode_PKCS12 codec_p12 None None (Some ''pfx'') None ui_wrong) = None
   \<and> out_calls (try_decode_PKCS12 codec_p12 None None (Some ''pfx'') None ui_wrong)
       = [D2I_PKCS12, VERIFY_MAC (Some []), VERIFY_MAC None,
          GET_PASS ''PKCS12 import password'', VERIFY_MAC (Some ''guess'')]
   \<and> fst (file_get_pass ui_cancel (PEM_BUFSIZE codec_p12) ''PKCS12 import password'') = None
   \<and> out_info (try_decode_PKCS12 codec_p12 None None (Some ''pfx'') None ui_cancel) = None
   \<and> out_info (try_decode_PKCS12 codec_p12 None None (Some ''pfx'') None ui_secret)
       = Some (INFO_PKEY 10)
   \<and> out_calls (try_decode_PKCS12 codec_p12 None None (Some ''pfx'') None ui_secret)
       = [D2I_PKCS12, VERIFY_MAC (Some []), VERIFY_MAC None,
          GET_PASS ''PKCS12 import password'', VERIFY_MAC (Some ''secret''),
          PARSE_PKCS12 ''secret'']"
  using try_decode_PKCS12_mac_before_unpack [of codec_p12 None None "Some ''pfx''" ui_wrong]
  by (simp add: try_decode_PKCS12_def no_match_def codec_p12_def codec_none_def d2i_def
      PKCS12_find_pass_def file_get_pass_def ui_wrong_def ui_cancel_def ui_secret_def
      PKCS12_build_ctx_def OSSL_STORE_INFO_new_def PKCS12_shift_def)

subsection \<open>The certificate handler\<close>

text \<open>C8: whenever the certificate handler attempts a decode, the trusted-format decode
  (\<^verbatim>\<open>d2i_X509_AUX\<close>) comes first; the plain decode (\<^verbatim>\<open>d2i_X509\<close>) is attempted only after
  the trusted one has failed and only when the declared name is not the trusted-certificate
  marker; a blob declared as a trusted certificate that the trusted decode rejects yields
  no match, whatever the plain decode would say.  No decode is attempted exactly when the
  declared name is none of the certificate markers.\<close>

theorem try_decode_X509Certificate_trusted_first:
  "(out_calls (try_decode_X509Certificate cx pem_name pem_header blob pctx ui_method) = []
    \<or> out_calls (try_decode_X509Certificate cx pem_name pem_header blob pctx ui_method)
        = [D2I_X509_AUX]
    \<or> out_calls (try_decode_X509Certificate cx pem_name pem_header blob pctx ui_method)
        = [D2I_X509_AUX, D2I_X509])
   \<and> (D2I_X509 \<in> set (out_calls (try_decode_X509Certificate cx pem_name pem_header blob pctx
                               ui_method))
        \<longrightarrow> pem_name \<noteq> Some (PEM_STRING_X509_TRUSTED cx)
            \<and> d2i (d2i_X509_AUX cx) blob = None)
   \<and> (pem_name = Some (PEM_STRING_X509_TRUSTED cx) \<and> d2i (d2i_X509_AUX cx) blob = None
        \<longrightarrow> out_info (try_decode_X509Certificate cx pem_name pem_header blob pctx ui_method)
            = None)
   \<and> (out_calls (try_decode_X509Certificate cx pem_name pem_header blob pctx ui_method) = []
        \<longleftrightarrow> pem_name \<noteq> None \<and> pem_name \<noteq> Some (PEM_STRING_X509_TRUSTED cx)
            \<and> pem_name \<noteq> Some (PEM_STRING_X509_OLD cx)
            \<and> pem_name \<noteq> Some (PEM_STRING_X509 cx))"
  by (auto simp: try_decode_X509Certificate_def no_match_def Let_def split: option.splits)

theorem try_decode_X509Certificate_trusted_first_witness:
  "d2i (d2i_X509_AUX codec_plain_cert) (Some ''der'') = None
   \<and> d2i (d2i_X509 codec_plain_cert) (Some ''der'') = Some 7
   \<and> out_info (try_decode_X509Certificate codec_plain_cert (Some ''TRUSTED CERTIFICATE'') (Some [])
        (Some ''der'') None ui_cancel) = None
   \<and> out_calls (try_decode_X509Certificate codec_plain_cert (Some ''TRUSTED CERTIFICATE'')
        (Some []) (Some ''der'') None ui_cancel) = [D2I_X509_AUX]
   \<and> out_info (try_decode_X509Certificate codec_plain_cert (Some ''CERTIFICATE'') (Some [])
        (Some ''der'') None ui_cancel) = Some (INFO_CERT 7)
   \<and> out_calls (try_decode_X509Certificate codec_plain_cert (Some ''CERTIFICATE'')
        (Some []) (Some ''der'') None ui_cancel) = [D2I_X509_AUX, D2I_X509]"
  using try_decode_X509Certificate_trusted_first
    [of codec_plain_cert "Some ''TRUSTED CERTIFICATE''" "Some []" "Some ''der''" None ui_cancel]
  by (simp add: try_decode_X509Certificate_def no_match_def Let_def codec_plain_cert_def
      codec_none_def d2i_def OSSL_STORE_INFO_new_def)

subsection \<open>file\_eof\<close>

text \<open>C9: \<^verbatim>\<open>file_eof\<close> is true exactly when no sticky handler has data pending (there is no
  sticky handler, or its \<^verbatim>\<open>eof\<close> says its context is exhausted) and the stream is at its
  end; in particular it is false while the sticky handler's \<^verbatim>\<open>eof\<close> says more is to come,
  wherever the stream stands.\<close>

theorem file_eof_iff:
  "(last_handler ctx = None \<longrightarrow> file_eof env ctx = Inr (BIO_eof env (file ctx)))
   \<and> (\<forall>h handler_eof. last_handler ctx = Some h \<and> eof h = Some handler_eof \<longrightarrow>
         file_eof env ctx = Inr (handler_eof (last_handler_ctx ctx) \<and> BIO_eof env (file ctx))
         \<and> (\<not> handler_eof (last_handler_ctx ctx) \<longrightarrow> file_eof env ctx = Inr False))"
  by (auto simp: file_eof_def)

theorem file_eof_iff_witness:
  "last_handler ctx_p12_pending = Some (PKCS12_handler codec_p12)
   \<and> eof (PKCS12_handler codec_p12) = Some eof_PKCS12
   \<and> \<not> eof_PKCS12 (last_handler_ctx ctx_p12_pending)
   \<and> BIO_eof list_env (file ctx_p12_pending)
   \<and> file_eof list_env ctx_p12_pending = Inr False
   \<and> file_eof list_env (ctx_p12_pending\<lparr>last_handler_ctx := Some []\<rparr>) = Inr True
   \<and> last_handler ctx_fresh = None
   \<and> file_eof list_env ctx_fresh = Inr True
   \<and> file_eof list_env (ctx_fresh\<lparr>file := [([], [], ''pfx'')]\<rparr>) = Inr False"
  using file_eof_iff [of ctx_p12_pending list_env] file_eof_iff [of ctx_fresh list_env]
  by (simp add: file_eof_def ctx_p12_pending_def ctx_fresh_def list_env_def PKCS12_handler_def
      eof_PKCS12_def)

subsection \<open>file\_open\<close>

lemma takeWhile_authority:
  assumes "set auth \<inter> D = {}" and "rest = [] \<or> hd rest \<in> D"
  shows "takeWhile (\<lambda>c. c \<notin> D) (auth @ rest) = auth"
proof -
  have a: "\<forall>c\<in>set auth. c \<notin> D" using assms(1) by auto
  have "takeWhile (\<lambda>c. c \<notin> D) rest = []" using assms(2) by (cases rest) auto
  with a show ?thesis by (simp add: takeWhile_append2)
qed

lemma authority_not_localhost:
  assumes "set auth \<inter> {CHR ''/'', CHR ''?'', CHR ''#''} = {}"
    and "rest = [] \<or> hd rest \<in> {CHR ''/'', CHR ''?'', CHR ''#''}"
    and "auth \<noteq> ''localhost''"
  shows "take 12 (''//'' @ auth @ rest) \<noteq> ''//localhost/''"
proof
  assume "take 12 (''//'' @ auth @ rest) = ''//localhost/''"
  then have t: "take 10 (auth @ rest) = ''localhost/''" by simp
  have "auth @ rest = take 10 (auth @ rest) @ drop 10 (auth @ rest)"
    by (rule append_take_drop_id [symmetric])
  with t have e: "auth @ rest = ''localhost/'' @ drop 10 (auth @ rest)" by simp
  have "takeWhile (\<lambda>c. c \<notin> {CHR ''/'', CHR ''?'', CHR ''#''}) (auth @ rest) = auth"
    using assms(1,2) by (rule takeWhile_authority)
  moreover have "takeWhile (\<lambda>c. c \<notin> {CHR ''/'', CHR ''?'', CHR ''#''})
                   (''localhost/'' @ drop 10 (auth @ rest)) = ''localhost''"
    by simp
  ultimately have "auth = ''localhost''" using e by simp
  with assms(3) show False by simp
qed

lemma authority_not_empty:
  assumes "set auth \<inter> {CHR ''/'', CHR ''?'', CHR ''#''} = {}" and "auth \<noteq> []"
  shows "take 3 (''//'' @ auth @ rest) \<noteq> ''///''"
  using assms by (cases auth) auto

lemma scheme_length: "map ascii_tolower scheme = ''file:'' \<Longrightarrow> length scheme = 5"
proof -
  assume "map ascii_tolower scheme = ''file:''"
  then have "length (map ascii_tolower scheme) = length ''file:''" by (rule arg_cong)
  then show ?thesis by simp
qed

text \<open>C6: for a locator whose first five characters are \<^verbatim>\<open>file:\<close> in any case,
  \<^verbatim>\<open>file_open\<close> returns \<^verbatim>\<open>NULL\<close> with the error \<^verbatim>\<open>URI_AUTHORITY_UNSUPPORTED\<close> when \<^verbatim>\<open>//\<close>
  is followed by an authority (the characters up to the next \<^verbatim>\<open>/\<close>, \<^verbatim>\<open>?\<close>, \<^verbatim>\<open>#\<close> or the
  end) that is neither empty nor \<^verbatim>\<open>localhost\<close>, and with the error
  \<^verbatim>\<open>PATH_MUST_BE_ABSOLUTE\<close> when what follows the scheme does not start with \<^verbatim>\<open>/\<close>; in
  both cases no path has been given to \<^verbatim>\<open>BIO_new_file\<close>.\<close>

theorem file_open_rejects_before_io:
  "map ascii_tolower scheme = ''file:'' \<longrightarrow>
     (auth \<noteq> [] \<and> auth \<noteq> ''localhost''
      \<and> set auth \<inter> {CHR ''/'', CHR ''?'', CHR ''#''} = {}
      \<and> (rest = [] \<or> hd rest \<in> {CHR ''/'', CHR ''?'', CHR ''#''})
      \<longrightarrow> file_open env (scheme @ ''//'' @ auth @ rest)
            = Inr (None, [OSSL_STOREerr F_FILE_OPEN R_URI_AUTHORITY_UNSUPPORTED []], []))
     \<and> (take 1 path \<noteq> ''/''
      \<longrightarrow> file_open env (scheme @ path)
            = Inr (None, [OSSL_STOREerr F_FILE_OPEN R_PATH_MUST_BE_ABSOLUTE []], []))"
proof (intro impI conjI)
  assume s: "map ascii_tolower scheme = ''file:''"
  then have l: "length scheme = 5" by (rule scheme_length)
  {
    assume a: "auth \<noteq> [] \<and> auth \<noteq> ''localhost''
      \<and> set auth \<inter> {CHR ''/'', CHR ''?'', CHR ''#''} = {}
      \<and> (rest = [] \<or> hd rest \<in> {CHR ''/'', CHR ''?'', CHR ''#''})"
    have n1: "take 12 (''//'' @ auth @ rest) \<noteq> ''//localhost/''"
      using a by (intro authority_not_localhost) auto
    have n2: "take 3 (''//'' @ auth @ rest) \<noteq> ''///''"
      using a by (intro authority_not_empty) auto
    have p: "file_open_path env (scheme @ ''//'' @ auth @ rest)
               = Inr (Inl (OSSL_STOREerr F_FILE_OPEN R_URI_AUTHORITY_UNSUPPORTED []))"
      using s l n1 n2 by (simp add: file_open_path_def)
    show "file_open env (scheme @ ''//'' @ auth @ rest)
            = Inr (None, [OSSL_STOREerr F_FILE_OPEN R_URI_AUTHORITY_UNSUPPORTED []], [])"
      unfolding file_open_def p by simp
  }
  {
    assume a: "take 1 path \<noteq> ''/''"
    then have n: "take 12 path \<noteq> ''//localhost/''" "take 3 path \<noteq> ''///''"
      "take 2 path \<noteq> ''//''"
      by (cases path; simp)+
    have p: "file_open_path env (scheme @ path)
               = Inr (Inl (OSSL_STOREerr F_FILE_OPEN R_PATH_MUST_BE_ABSOLUTE []))"
      using s l n a by (simp add: file_open_path_def)
    show "file_open env (scheme @ path)
            = Inr (None, [OSSL_STOREerr F_FILE_OPEN R_PATH_MUST_BE_ABSOLUTE []], [])"
      unfolding file_open_def p by simp
  }
qed

theorem file_open_rejects_before_io_witness:
  "map ascii_tolower ''FILE:'' = ''file:''
   \<and> (file_open list_env ''FILE://evil-host/store/bundle.p12''
        :: _ + ((list_bio, p12_ctx) OSSL_STORE_LOADER_CTX option \<times> _))
       = Inr (None, [OSSL_STOREerr F_FILE_OPEN R_URI_AUTHORITY_UNSUPPORTED []], [])
   \<and> (file_open list_env ''FILE:store/bundle.p12''
        :: _ + ((list_bio, p12_ctx) OSSL_STORE_LOADER_CTX option \<times> _))
       = Inr (None, [OSSL_STOREerr F_FILE_OPEN R_PATH_MUST_BE_ABSOLUTE []], [])
   \<and> (file_open list_env ''file://localhost/store/bundle.p12''
        :: _ + ((list_bio, p12_ctx) OSSL_STORE_LOADER_CTX option \<times> _))
       = Inr (Some (ctx_fresh\<lparr>file := [([], [], ''pfx'')]\<rparr>), [], [''/store/bundle.p12''])"
  using file_open_rejects_before_io
    [of "''FILE:''" "''evil-host''" "''/store/bundle.p12''" list_env "''store/bundle.p12''"]
  by (simp add: ascii_tolower_def file_open_def file_open_path_def list_env_def ctx_fresh_def
      file_open_sniff_def strstr_found_def)

subsection \<open>file\_load and the sticky handler\<close>

text \<open>C4: \<^verbatim>\<open>file_load\<close> first asks the sticky handler, when there is one, for the next
  object from its context.  If it yields one, that object is returned, the handler stays
  and the stream is not read.  If it yields none, its context is destroyed and the sticky
  pair is cleared; only then is the error counter consulted, and when it is positive
  \<^verbatim>\<open>file_load\<close> returns no object without reading the stream.  The third part is the same
  for a loader with no sticky handler.\<close>

theorem file_load_sticky_first:
  "(\<forall>h obj. last_handler ctx = Some h
       \<and> out_info (try_decode h None None None (last_handler_ctx ctx) ui_method) = Some obj
     \<longrightarrow> file_load handlers env ctx ui_method w
         = Some (Inr \<lparr>ld_ctx = ctx\<lparr>last_handler_ctx :=
                                  out_ctx (try_decode h None None None (last_handler_ctx ctx)
                                             ui_method)\<rparr>,
                       ld_result = Some obj, ld_matchcount = - 1,
                       ld_fx = raise_err (out_errs (try_decode h None None None
                                                      (last_handler_ctx ctx) ui_method)) w\<rparr>))
   \<and> (\<forall>h d. last_handler ctx = Some h
       \<and> out_info (try_decode h None None None (last_handler_ctx ctx) ui_method) = None
       \<and> destroy_ctx h = Some d \<and> errcnt ctx > 0
     \<longrightarrow> file_load handlers env ctx ui_method w
         = Some (Inr \<lparr>ld_ctx = ctx\<lparr>last_handler_ctx := None, last_handler := None\<rparr>,
                       ld_result = None, ld_matchcount = - 1,
                       ld_fx = emit [EV_destroy_ctx (name h)
                                       (out_ctx (try_decode h None None None
                                                   (last_handler_ctx ctx) ui_method))]
                                 (raise_err (out_errs (try_decode h None None None
                                                         (last_handler_ctx ctx) ui_method)) w)\<rparr>))
   \<and> (last_handler ctx = None \<and> errcnt ctx > 0
     \<longrightarrow> file_load handlers env ctx ui_method w
         = Some (Inr \<lparr>ld_ctx = ctx, ld_result = None, ld_matchcount = - 1, ld_fx = w\<rparr>))"
  by (auto simp: file_load_def file_load_try_repeat_def file_error_def Let_def)

theorem file_load_sticky_first_witness:
  "last_handler ctx_p12_pending = Some (PKCS12_handler codec_p12)
   \<and> out_info (try_decode (PKCS12_handler codec_p12) None None None
                 (last_handler_ctx ctx_p12_pending) ui_cancel) = Some (INFO_CERT 20)
   \<and> file_load (file_handlers codec_p12) list_env (ctx_p12_pending\<lparr>errcnt := 1\<rparr>) ui_cancel w_empty
       = Some (Inr \<lparr>ld_ctx = ctx_p12_pending\<lparr>errcnt := 1, last_handler_ctx := Some []\<rparr>,
                     ld_result = Some (INFO_CERT 20), ld_matchcount = - 1, ld_fx = w_empty\<rparr>)
   \<and> file_load (file_handlers codec_p12) list_env
         (ctx_p12_pending\<lparr>errcnt := 1, last_handler_ctx := Some []\<rparr>) ui_cancel w_empty
       = Some (Inr \<lparr>ld_ctx = ctx_fresh\<lparr>errcnt := 1\<rparr>,
                     ld_result = None, ld_matchcount = - 1,
                     ld_fx = \<lparr>errq = [], log = [EV_destroy_ctx ''PKCS12'' (Some [])]\<rparr>\<rparr>)
   \<and> file_load (file_handlers codec_p12) list_env (ctx_fresh\<lparr>errcnt := 1\<rparr>) ui_cancel w_empty
       = Some (Inr \<lparr>ld_ctx = ctx_fresh\<lparr>errcnt := 1\<rparr>,
                     ld_result = None, ld_matchcount = - 1, ld_fx = w_empty\<rparr>)"
  using file_load_sticky_first [of "ctx_p12_pending\<lparr>errcnt := 1\<rparr>" ui_cancel
          "file_handlers codec_p12" list_env w_empty]
        file_load_sticky_first [of "ctx_p12_pending\<lparr>errcnt := 1, last_handler_ctx := Some []\<rparr>"
          ui_cancel "file_handlers codec_p12" list_env w_empty]
        file_load_sticky_first [of "ctx_fresh\<lparr>errcnt := 1\<rparr>" ui_cancel
          "file_handlers codec_p12" list_env w_empty]
  by (simp add: ctx_p12_pending_def ctx_fresh_def PKCS12_handler_def try_decode_PKCS12_def
      PKCS12_shift_def w_empty_def raise_err_def emit_def destroy_ctx_PKCS12_def)

subsection \<open>One pass over the handlers\<close>

lemma raise_err_raise_err [simp]: "raise_err b (raise_err a w) = raise_err (a @ b) w"
  by (simp add: raise_err_def)

lemma raise_err_log [simp]: "log (raise_err es w) = log w"
  by (simp add: raise_err_def)

lemma raise_err_Nil [simp]: "raise_err [] w = w"
  by (simp add: raise_err_def)

lemma file_load_try_handler_no_match:
  assumes "out_info (try_decode h pn ph (Some d) None ui) = None"
  shows "file_load_try_handler pn ph d ui h st
           = Inr (st\<lparr>pass_fx := raise_err (out_errs (try_decode h pn ph (Some d) None ui)
                     @ [OSSL_STOREerr F_FILE_LOAD_TRY_DECODE R_IS_NOT_A [name h]]) (pass_fx st)\<rparr>)"
  using assms by (simp add: file_load_try_handler_def Let_def)

lemma file_load_try_handlers_no_match:
  assumes "\<forall>h\<in>set hs. out_info (try_decode h pn ph (Some d) None ui) = None"
  shows "\<exists>es. file_load_try_handlers pn ph d ui hs st
                 = Inr (st\<lparr>pass_fx := raise_err es (pass_fx st)\<rparr>)"
  using assms
proof (induction hs arbitrary: st)
  case Nil
  have "st = st\<lparr>pass_fx := raise_err [] (pass_fx st)\<rparr>" by simp
  then show ?case by (metis file_load_try_handlers.simps(1))
next
  case (Cons h hs)
  let ?e = "out_errs (try_decode h pn ph (Some d) None ui)
              @ [OSSL_STOREerr F_FILE_LOAD_TRY_DECODE R_IS_NOT_A [name h]]"
  let ?st = "st\<lparr>pass_fx := raise_err ?e (pass_fx st)\<rparr>"
  from Cons.prems have h: "file_load_try_handler pn ph d ui h st = Inr ?st"
    by (intro file_load_try_handler_no_match) simp
  from Cons.prems obtain es where
    "file_load_try_handlers pn ph d ui hs ?st = Inr (?st\<lparr>pass_fx := raise_err es (pass_fx ?st)\<rparr>)"
    using Cons.IH [of ?st] by auto
  then have "file_load_try_handlers pn ph d ui (h # hs) st
               = Inr (st\<lparr>pass_fx := raise_err (?e @ es) (pass_fx st)\<rparr>)"
    by (simp add: h)
  then show ?case by blast
qed

lemma file_load_try_handlers_no_match_fields:
  assumes "\<forall>h\<in>set hs. out_info (try_decode h pn ph (Some d) None ui) = None"
  shows "\<exists>es. file_load_try_handlers pn ph d ui hs
                 \<lparr>matchcount = m, result = r, handler_ctx = c, matching_handlers = mh,
                  pass_fx = w\<rparr>
               = Inr \<lparr>matchcount = m, result = r, handler_ctx = c, matching_handlers = mh,
                      pass_fx = raise_err es w\<rparr>"
  using file_load_try_handlers_no_match [OF assms,
      of "\<lparr>matchcount = m, result = r, handler_ctx = c, matching_handlers = mh, pass_fx = w\<rparr>"]
  by simp

lemma file_load_try_handlers_append:
  "file_load_try_handlers pn ph d ui (xs @ ys) st
     = (case file_load_try_handlers pn ph d ui xs st of
          Inl f \<Rightarrow> Inl f
        | Inr st' \<Rightarrow> file_load_try_handlers pn ph d ui ys st')"
  by (induction xs arbitrary: st) (auto split: sum.splits)

lemma file_load_try_handler_first_match:
  assumes "out_info (try_decode h pn ph (Some d) None ui) = Some obj"
    and "matchcount st = 0" and "handler_ctx st = None"
  shows "file_load_try_handler pn ph d ui h st
           = Inr (st\<lparr>matchcount := 1, result := Some obj,
                    handler_ctx := out_ctx (try_decode h pn ph (Some d) None ui),
                    matching_handlers := matching_handlers st @ [h],
                    pass_fx := raise_err (out_errs (try_decode h pn ph (Some d) None ui))
                                 (pass_fx st)\<rparr>)"
  using assms by (simp add: file_load_try_handler_def Let_def)

lemma file_load_try_handlers_single_match:
  assumes pre: "\<forall>h'\<in>set pre. out_info (try_decode h' pn ph (Some d) None ui) = None"
    and post: "\<forall>h'\<in>set post. out_info (try_decode h' pn ph (Some d) None ui) = None"
    and h: "out_info (try_decode h pn ph (Some d) None ui) = Some obj"
  shows "\<exists>es. file_load_try_handlers pn ph d ui (pre @ h # post)
                 \<lparr>matchcount = 0, result = None, handler_ctx = None, matching_handlers = [],
                  pass_fx = w\<rparr>
               = Inr \<lparr>matchcount = 1, result = Some obj,
                      handler_ctx = out_ctx (try_decode h pn ph (Some d) None ui),
                      matching_handlers = [h], pass_fx = raise_err es w\<rparr>"
proof -
  from file_load_try_handlers_no_match_fields [OF pre] obtain e1 where
    1: "file_load_try_handlers pn ph d ui pre
          \<lparr>matchcount = 0, result = None, handler_ctx = None, matching_handlers = [],
           pass_fx = w\<rparr>
        = Inr \<lparr>matchcount = 0, result = None, handler_ctx = None, matching_handlers = [],
               pass_fx = raise_err e1 w\<rparr>"
    by blast
  let ?e2 = "out_errs (try_decode h pn ph (Some d) None ui)"
  have 2: "file_load_try_handler pn ph d ui h
             \<lparr>matchcount = 0, result = None, handler_ctx = None, matching_handlers = [],
              pass_fx = raise_err e1 w\<rparr>
           = Inr \<lparr>matchcount = 1, result = Some obj,
                  handler_ctx = out_ctx (try_decode h pn ph (Some d) None ui),
                  matching_handlers = [h], pass_fx = raise_err (e1 @ ?e2) w\<rparr>"
    by (simp add: file_load_try_handler_first_match [OF h])
  from file_load_try_handlers_no_match_fields [OF post] obtain e3 where
    3: "file_load_try_handlers pn ph d ui post
          \<lparr>matchcount = 1, result = Some obj,
           handler_ctx = out_ctx (try_decode h pn ph (Some d) None ui),
           matching_handlers = [h], pass_fx = raise_err (e1 @ ?e2) w\<rparr>
        = Inr \<lparr>matchcount = 1, result = Some obj,
               handler_ctx = out_ctx (try_decode h pn ph (Some d) None ui),
               matching_handlers = [h], pass_fx = raise_err ((e1 @ ?e2) @ e3) w\<rparr>"
    by (metis raise_err_raise_err)
  have "file_load_try_handlers pn ph d ui (pre @ h # post)
          \<lparr>matchcount = 0, result = None, handler_ctx = None, matching_handlers = [],
           pass_fx = w\<rparr>
          = Inr \<lparr>matchcount = 1, result = Some obj,
                 handler_ctx = out_ctx (try_decode h pn ph (Some d) None ui),
                 matching_handlers = [h], pass_fx = raise_err ((e1 @ ?e2) @ e3) w\<rparr>"
    by (simp only: file_load_try_handlers_append 1 sum.case file_load_try_handlers.simps 2 3)
  then show ?thesis by blast
qed

lemma file_load_try_decode_pass_adopts:
  assumes pre: "\<forall>h'\<in>set pre. out_info (try_decode h' pn ph (Some d) None ui) = None"
    and post: "\<forall>h'\<in>set post. out_info (try_decode h' pn ph (Some d) None ui) = None"
    and h: "out_info (try_decode h pn ph (Some d) None ui) = Some obj"
    and rep: "repeatable h"
    and z: "OPENSSL_zalloc_ok env"
  shows "\<exists>es. file_load_try_decode_pass (pre @ h # post) env (Some c) pn ph d ui mc w
               = Inr \<lparr>ret_ctx = Some (c\<lparr>last_handler := Some h,
                                        last_handler_ctx :=
                                          out_ctx (try_decode h pn ph (Some d) None ui)\<rparr>),
                      ret_info = Some obj, ret_matchcount = 1, ret_fx = raise_err es w\<rparr>"
proof -
  from file_load_try_handlers_single_match [OF pre post h, of w] obtain es where
    "file_load_try_handlers pn ph d ui (pre @ h # post)
                 \<lparr>matchcount = 0, result = None, handler_ctx = None, matching_handlers = [],
                  pass_fx = w\<rparr>
               = Inr \<lparr>matchcount = 1, result = Some obj,
                      handler_ctx = out_ctx (try_decode h pn ph (Some d) None ui),
                      matching_handlers = [h], pass_fx = raise_err es w\<rparr>"
    by blast
  then have "file_load_try_decode_pass (pre @ h # post) env (Some c) pn ph d ui mc w
               = Inr \<lparr>ret_ctx = Some (c\<lparr>last_handler := Some h,
                                        last_handler_ctx :=
                                          out_ctx (try_decode h pn ph (Some d) None ui)\<rparr>),
                      ret_info = Some obj, ret_matchcount = 1, ret_fx = raise_err es w\<rparr>"
    using rep z by (simp add: file_load_try_decode_pass_def)
  then show ?thesis by blast
qed

lemma file_load_try_decode_adopts:
  assumes pre: "\<forall>h'\<in>set pre. out_info (try_decode h' pn ph (Some d) None ui) = None"
    and post: "\<forall>h'\<in>set post. out_info (try_decode h' pn ph (Some d) None ui) = None"
    and h: "out_info (try_decode h pn ph (Some d) None ui) = Some obj"
    and rep: "repeatable h"
    and z: "OPENSSL_zalloc_ok env"
    and ne: "\<forall>nm buf. obj \<noteq> INFO_EMBEDDED nm buf"
  shows "file_load_try_decode (pre @ h # post) env (Some c) pn ph d ui mc w
           = Some (Inr \<lparr>ret_ctx = Some (c\<lparr>last_handler := Some h,
                                        last_handler_ctx :=
                                          out_ctx (try_decode h pn ph (Some d) None ui)\<rparr>),
                      ret_info = Some obj, ret_matchcount = 1,
                      ret_fx = \<lparr>errq = [], log = log w\<rparr>\<rparr>)"
proof -
  from file_load_try_decode_pass_adopts [OF pre post h rep z, of c mc w] obtain es where
    p: "file_load_try_decode_pass (pre @ h # post) env (Some c) pn ph d ui mc w
               = Inr \<lparr>ret_ctx = Some (c\<lparr>last_handler := Some h,
                                        last_handler_ctx :=
                                          out_ctx (try_decode h pn ph (Some d) None ui)\<rparr>),
                      ret_info = Some obj, ret_matchcount = 1, ret_fx = raise_err es w\<rparr>"
    by blast
  show ?thesis
    by (subst file_load_try_decode.simps, simp only: p)
       (use ne in \<open>cases obj; simp add: raise_err_def\<close>)
qed

subsection \<open>Adopting a repeatable handler\<close>

lemma file_load_body_adopts:
  assumes read: "file_load_read env (ld_ctx v) ui = (Some (pn, ph, d), bp, es)"
    and pre: "\<forall>h'\<in>set pre. out_info (try_decode h' pn ph (Some d) None ui) = None"
    and post: "\<forall>h'\<in>set post. out_info (try_decode h' pn ph (Some d) None ui) = None"
    and h: "out_info (try_decode h pn ph (Some d) None ui) = Some obj"
    and rep: "repeatable h"
    and z: "OPENSSL_zalloc_ok env"
    and ne: "\<forall>nm buf. obj \<noteq> INFO_EMBEDDED nm buf"
  shows "file_load_body (pre @ h # post) env ui v
           = Some (Inr \<lparr>ld_ctx = (ld_ctx v)\<lparr>file := bp, last_handler := Some h,
                                  last_handler_ctx :=
                                    out_ctx (try_decode h pn ph (Some d) None ui)\<rparr>,
                        ld_result = Some obj, ld_matchcount = 1,
                        ld_fx = \<lparr>errq = [], log = log (ld_fx v)\<rparr>\<rparr>)"
  unfolding file_load_body_def read
  by (simp add: file_load_try_decode_adopts [OF pre post h rep z ne] Let_def)

lemma file_load_loop_adopts:
  assumes read: "file_load_read env (ld_ctx v) ui = (Some (pn, ph, d), bp, es)"
    and pre: "\<forall>h'\<in>set pre. out_info (try_decode h' pn ph (Some d) None ui) = None"
    and post: "\<forall>h'\<in>set post. out_info (try_decode h' pn ph (Some d) None ui) = None"
    and h: "out_info (try_decode h pn ph (Some d) None ui) = Some obj"
    and rep: "repeatable h"
    and z: "OPENSSL_zalloc_ok env"
    and ne: "\<forall>nm buf. obj \<noteq> INFO_EMBEDDED nm buf"
  shows "file_load_loop (pre @ h # post) env ui v
           = Some (Inr \<lparr>ld_ctx = (ld_ctx v)\<lparr>file := bp, last_handler := Some h,
                                  last_handler_ctx :=
                                    out_ctx (try_decode h pn ph (Some d) None ui)\<rparr>,
                        ld_result = Some obj, ld_matchcount = 1,
                        ld_fx = \<lparr>errq = [], log = log (ld_fx v)\<rparr>\<rparr>)"
  by (subst file_load_loop.simps)
     (simp add: file_load_body_adopts [OF read pre post h rep z ne] file_load_continue_def)

lemma file_load_adopts:
  assumes rpt: "file_load_try_repeat ctx ui w = Inr (ctx1, None, w1)"
    and ok: "\<not> file_error ctx1"
    and read: "file_load_read env ctx1 ui = (Some (pn, ph, d), bp, es)"
    and pre: "\<forall>h'\<in>set pre. out_info (try_decode h' pn ph (Some d) None ui) = None"
    and post: "\<forall>h'\<in>set post. out_info (try_decode h' pn ph (Some d) None ui) = None"
    and h: "out_info (try_decode h pn ph (Some d) None ui) = Some obj"
    and rep: "repeatable h"
    and z: "OPENSSL_zalloc_ok env"
    and ne: "\<forall>nm buf. obj \<noteq> INFO_EMBEDDED nm buf"
  shows "file_load (pre @ h # post) env ctx ui w
           = Some (Inr \<lparr>ld_ctx = ctx1\<lparr>file := bp, last_handler := Some h,
                                  last_handler_ctx :=
                                    out_ctx (try_decode h pn ph (Some d) None ui)\<rparr>,
                        ld_result = Some obj, ld_matchcount = 1,
                        ld_fx = \<lparr>errq = [], log = log w1\<rparr>\<rparr>)"
proof -
  let ?v = "\<lparr>ld_ctx = ctx1, ld_result = None, ld_matchcount = - 1, ld_fx = w1\<rparr>"
  have r: "file_load_read env (ld_ctx ?v) ui = (Some (pn, ph, d), bp, es)"
    using read by simp
  show ?thesis
    unfolding file_load_def rpt
    by (simp add: ok file_load_loop_adopts [OF r pre post h rep z ne])
qed

lemma file_load_try_repeat_teardown:
  assumes "file_load_try_repeat ctx ui w = Inr (ctx1, None, w1)"
    and "last_handler ctx = None \<longrightarrow> last_handler_ctx ctx = None"
  shows "last_handler ctx1 = None \<and> last_handler_ctx ctx1 = None
         \<and> file ctx1 = file ctx \<and> errcnt ctx1 = errcnt ctx \<and> is_pem ctx1 = is_pem ctx
         \<and> (last_handler ctx = None \<longrightarrow> w1 = w)
         \<and> (\<forall>h0. last_handler ctx = Some h0 \<longrightarrow>
               destroy_ctx h0 \<noteq> None \<and>
               log w1 = log w @ [EV_destroy_ctx (name h0)
                                   (out_ctx (try_decode h0 None None None (last_handler_ctx ctx)
                                               ui))])"
  using assms
  by (auto simp: file_load_try_repeat_def Let_def emit_def split: option.splits)

text \<open>C5: when \<^verbatim>\<open>file_load\<close> gets no object from the sticky handler and the record it then
  reads is accepted by exactly one handler, a repeatable one, the pass over the handlers
  sets the sticky pair to that handler and the context it produced.  By then the pair is
  empty: a previous handler's context has been given to that handler's \<^verbatim>\<open>destroy_ctx\<close> in
  \<^verbatim>\<open>file_load_try_repeat\<close>, before the handlers were tried, so the loader holds one context
  at most.  When the accepted info is not an embedded blob, \<^verbatim>\<open>file_load\<close> returns it with
  that pair in place.\<close>

theorem file_load_adopts_after_teardown:
  assumes "file_load_try_repeat ctx ui w = Inr (ctx1, None, w1)"
    and "last_handler ctx = None \<longrightarrow> last_handler_ctx ctx = None"
    and "\<not> file_error ctx"
    and "file_load_read env ctx1 ui = (Some (pn, ph, d), bp, es)"
    and "\<forall>h'\<in>set pre. out_info (try_decode h' pn ph (Some d) None ui) = None"
    and "\<forall>h'\<in>set post. out_info (try_decode h' pn ph (Some d) None ui) = None"
    and "out_info (try_decode h pn ph (Some d) None ui) = Some obj"
    and "repeatable h"
    and "OPENSSL_zalloc_ok env"
  shows "last_handler ctx1 = None \<and> last_handler_ctx ctx1 = None
         \<and> (\<forall>h0. last_handler ctx = Some h0 \<longrightarrow>
               destroy_ctx h0 \<noteq> None \<and>
               log w1 = log w @ [EV_destroy_ctx (name h0)
                                   (out_ctx (try_decode h0 None None None (last_handler_ctx ctx)
                                               ui))])
         \<and> (\<exists>es'. file_load_try_decode_pass (pre @ h # post) env (Some (ctx1\<lparr>file := bp\<rparr>))
                     pn ph d ui (- 1) (raise_err es w1)
                   = Inr \<lparr>ret_ctx = Some (ctx1\<lparr>file := bp, last_handler := Some h,
                                              last_handler_ctx :=
                                                out_ctx (try_decode h pn ph (Some d) None ui)\<rparr>),
                          ret_info = Some obj, ret_matchcount = 1,
                          ret_fx = \<lparr>errq = errq w1 @ es', log = log w1\<rparr>\<rparr>)
         \<and> ((\<forall>nm buf. obj \<noteq> INFO_EMBEDDED nm buf) \<longrightarrow>
              file_load (pre @ h # post) env ctx ui w
                = Some (Inr \<lparr>ld_ctx = ctx1\<lparr>file := bp, last_handler := Some h,
                                       last_handler_ctx :=
                                         out_ctx (try_decode h pn ph (Some d) None ui)\<rparr>,
                             ld_result = Some obj, ld_matchcount = 1,
                             ld_fx = \<lparr>errq = [], log = log w1\<rparr>\<rparr>))"
proof -
  note t = file_load_try_repeat_teardown [OF assms(1,2)]
  from t assms(3) have ok: "\<not> file_error ctx1" by (simp add: file_error_def)
  from file_load_try_decode_pass_adopts [OF assms(5-9), of "ctx1\<lparr>file := bp\<rparr>" "- 1"
      "raise_err es w1"]
  obtain es0 where
    p: "file_load_try_decode_pass (pre @ h # post) env (Some (ctx1\<lparr>file := bp\<rparr>))
                     pn ph d ui (- 1) (raise_err es w1)
                   = Inr \<lparr>ret_ctx = Some (ctx1\<lparr>file := bp, last_handler := Some h,
                                              last_handler_ctx :=
                                                out_ctx (try_decode h pn ph (Some d) None ui)\<rparr>),
                          ret_info = Some obj, ret_matchcount = 1,
                          ret_fx = raise_err es0 (raise_err es w1)\<rparr>"
    by auto
  have "raise_err es0 (raise_err es w1) = \<lparr>errq = errq w1 @ (es @ es0), log = log w1\<rparr>"
    by (simp add: raise_err_def)
  with p have p': "\<exists>es'. file_load_try_decode_pass (pre @ h # post) env
                     (Some (ctx1\<lparr>file := bp\<rparr>)) pn ph d ui (- 1) (raise_err es w1)
                   = Inr \<lparr>ret_ctx = Some (ctx1\<lparr>file := bp, last_handler := Some h,
                                              last_handler_ctx :=
                                                out_ctx (try_decode h pn ph (Some d) None ui)\<rparr>),
                          ret_info = Some obj, ret_matchcount = 1,
                          ret_fx = \<lparr>errq = errq w1 @ es', log = log w1\<rparr>\<rparr>"
    by (intro exI [of _ "es @ es0"]) simp
  have l: "(\<forall>nm buf. obj \<noteq> INFO_EMBEDDED nm buf) \<longrightarrow>
              file_load (pre @ h # post) env ctx ui w
                = Some (Inr \<lparr>ld_ctx = ctx1\<lparr>file := bp, last_handler := Some h,
                                       last_handler_ctx :=
                                         out_ctx (try_decode h pn ph (Some d) None ui)\<rparr>,
                             ld_result = Some obj, ld_matchcount = 1,
                             ld_fx = \<lparr>errq = [], log = log w1\<rparr>\<rparr>)"
    using file_load_adopts [OF assms(1) ok assms(4-9)] by blast
  from t p' l show ?thesis by blast
qed

lemma codec_p12_others_no_match:
  "\<forall>h'\<in>set [X509Certificate_handler codec_p12, X509CRL_handler codec_p12,
              params_handler codec_p12, PUBKEY_handler codec_p12, PrivateKey_handler codec_p12].
     out_info (try_decode h' None None (Some ''pfx'') None ui_secret) = None"
  by (simp add: X509Certificate_handler_def X509CRL_handler_def params_handler_def
      PUBKEY_handler_def PrivateKey_handler_def try_decode_X509Certificate_def
      try_decode_X509CRL_def try_decode_params_def try_decode_PUBKEY_def
      try_decode_PrivateKey_def no_match_def d2i_def codec_p12_def codec_none_def)

lemma codec_p12_PKCS12_match:
  "try_decode (PKCS12_handler codec_p12) None None (Some ''pfx'') None ui_secret
     = \<lparr>out_info = Some (INFO_PKEY 10),
        out_ctx = Some [INFO_CERT 20, INFO_CERT 21, INFO_CERT 22], out_errs = [],
        out_calls = [D2I_PKCS12, VERIFY_MAC (Some []), VERIFY_MAC None,
                     GET_PASS ''PKCS12 import password'', VERIFY_MAC (Some ''secret''),
                     PARSE_PKCS12 ''secret'']\<rparr>"
  by (simp add: PKCS12_handler_def try_decode_PKCS12_def no_match_def codec_p12_def
      codec_none_def d2i_def PKCS12_find_pass_def file_get_pass_def ui_secret_def
      PKCS12_build_ctx_def OSSL_STORE_INFO_new_def PKCS12_shift_def)

theorem file_load_adopts_after_teardown_witness:
  "file_load_try_repeat ctx_p12_exhausted ui_secret w_empty
     = Inr (ctx_p12_exhausted\<lparr>last_handler_ctx := None, last_handler := None\<rparr>, None,
            \<lparr>errq = [], log = [EV_destroy_ctx ''PKCS12'' (Some [])]\<rparr>)
   \<and> file_load (file_handlers codec_p12) list_env ctx_p12_exhausted ui_secret w_empty
       = Some (Inr \<lparr>ld_ctx = ctx_p12_exhausted
                       \<lparr>file := [], last_handler := Some (PKCS12_handler codec_p12),
                        last_handler_ctx := Some [INFO_CERT 20, INFO_CERT 21, INFO_CERT 22]\<rparr>,
                     ld_result = Some (INFO_PKEY 10), ld_matchcount = 1,
                     ld_fx = \<lparr>errq = [], log = [EV_destroy_ctx ''PKCS12'' (Some [])]\<rparr>\<rparr>)"
proof -
  have r: "file_load_try_repeat ctx_p12_exhausted ui_secret w_empty
     = Inr (ctx_p12_exhausted\<lparr>last_handler_ctx := None, last_handler := None\<rparr>, None,
            \<lparr>errq = [], log = [EV_destroy_ctx ''PKCS12'' (Some [])]\<rparr>)"
    by (simp add: file_load_try_repeat_def ctx_p12_exhausted_def PKCS12_handler_def
        try_decode_PKCS12_def PKCS12_shift_def destroy_ctx_PKCS12_def w_empty_def emit_def
        raise_err_def)
  have s: "last_handler ctx_p12_exhausted = None \<longrightarrow> last_handler_ctx ctx_p12_exhausted = None"
    by (simp add: ctx_p12_exhausted_def)
  have e: "\<not> file_error ctx_p12_exhausted"
    by (simp add: file_error_def ctx_p12_exhausted_def)
  have rd: "file_load_read list_env
              (ctx_p12_exhausted\<lparr>last_handler_ctx := None, last_handler := None\<rparr>) ui_secret
            = (Some (None, None, ''pfx''), [], [])"
    by (simp add: file_load_read_def file_read_asn1_def ctx_p12_exhausted_def list_env_def)
  have pre: "\<forall>h'\<in>set []. out_info (try_decode h' None None (Some ''pfx'') None ui_secret) = None"
    by simp
  have m: "out_info (try_decode (PKCS12_handler codec_p12) None None (Some ''pfx'') None
             ui_secret) = Some (INFO_PKEY 10)"
    by (simp add: codec_p12_PKCS12_match)
  have rep: "repeatable (PKCS12_handler codec_p12)" by (simp add: PKCS12_handler_def)
  have z: "OPENSSL_zalloc_ok list_env" by (simp add: list_env_def)
  have ne: "\<forall>nm buf. INFO_PKEY 10 \<noteq> INFO_EMBEDDED nm buf" by simp
  from file_load_adopts_after_teardown [OF r s e rd pre codec_p12_others_no_match m rep z] ne
  show ?thesis
    by (simp add: r file_handlers_def codec_p12_PKCS12_match)
qed

subsection \<open>Draining a PKCS12 bundle\<close>

lemma PKCS12_push_chain_ok:
  assumes "\<forall>i. OSSL_STORE_INFO_new_ok cx i" and "\<forall>st i. sk_push_ok cx st i"
  shows "PKCS12_push_chain cx acc chain = Some (acc @ map INFO_CERT chain)"
  using assms by (induction chain arbitrary: acc) (simp_all add: OSSL_STORE_INFO_new_def)

lemma PKCS12_build_ctx_ok:
  assumes "sk_new_null_ok cx" and "\<forall>i. OSSL_STORE_INFO_new_ok cx i"
    and "\<forall>st i. sk_push_ok cx st i"
  shows "PKCS12_build_ctx cx pkey cert chain
           = Some (INFO_PKEY pkey # INFO_CERT cert # map INFO_CERT chain)"
  using assms
  by (simp add: PKCS12_build_ctx_def OSSL_STORE_INFO_new_def PKCS12_push_chain_ok)

lemma try_decode_PKCS12_first:
  assumes "d2i_PKCS12 cx blob = Some p12"
    and "PKCS12_find_pass cx ui p12 = (Some pass, es, cs)"
    and "PKCS12_parse cx p12 pass = Some (pkey, cert, chain)"
    and "sk_new_null_ok cx" and "\<forall>i. OSSL_STORE_INFO_new_ok cx i"
    and "\<forall>st i. sk_push_ok cx st i"
  shows "out_info (try_decode (PKCS12_handler cx) None None (Some blob) None ui)
           = Some (INFO_PKEY pkey)
         \<and> out_ctx (try_decode (PKCS12_handler cx) None None (Some blob) None ui)
           = Some (INFO_CERT cert # map INFO_CERT chain)"
  using assms
  by (simp add: PKCS12_handler_def try_decode_PKCS12_def d2i_def PKCS12_build_ctx_ok
      PKCS12_shift_def)

lemma file_load_PKCS12_next:
  assumes "last_handler ctx = Some (PKCS12_handler cx)"
    and "last_handler_ctx ctx = Some (x # xs)"
  shows "file_load handlers env ctx ui w
           = Some (Inr \<lparr>ld_ctx = ctx\<lparr>last_handler_ctx := Some xs\<rparr>, ld_result = Some x,
                        ld_matchcount = - 1, ld_fx = w\<rparr>)"
  using assms
  by (simp add: file_load_def file_load_try_repeat_def PKCS12_handler_def
      try_decode_PKCS12_def PKCS12_shift_def)

lemma successive_loads_PKCS12_drain:
  assumes "last_handler ctx = Some (PKCS12_handler cx)"
    and "last_handler_ctx ctx = Some xs"
  shows "successive_loads handlers env ui (length xs) ctx w
           = Some (Inr (map Some xs, ctx\<lparr>last_handler_ctx := Some []\<rparr>, w))"
  using assms
proof (induction xs arbitrary: ctx)
  case Nil
  then have "ctx\<lparr>last_handler_ctx := Some []\<rparr> = ctx" by simp
  then show ?case by simp
next
  case (Cons x xs)
  have l: "file_load handlers env ctx ui w
           = Some (Inr \<lparr>ld_ctx = ctx\<lparr>last_handler_ctx := Some xs\<rparr>, ld_result = Some x,
                        ld_matchcount = - 1, ld_fx = w\<rparr>)"
    using Cons.prems by (rule file_load_PKCS12_next)
  have "successive_loads handlers env ui (length xs) (ctx\<lparr>last_handler_ctx := Some xs\<rparr>) w
          = Some (Inr (map Some xs,
                       ctx\<lparr>last_handler_ctx := Some xs\<rparr>\<lparr>last_handler_ctx := Some []\<rparr>, w))"
    using Cons.prems by (intro Cons.IH) simp_all
  then show ?case by (simp add: l)
qed

text \<open>C3: a raw blob that only the PKCS12 handler accepts, holding a key, a certificate
  and a chain of \<open>N\<close> certificates, is returned by \<open>N + 2\<close> successive calls of
  \<^verbatim>\<open>file_load\<close>: the key, the certificate, then the chain certificates in chain order, one
  per call.  After them the handler's \<^verbatim>\<open>eof\<close> reports exhaustion, and the next call finds
  nothing left, destroys the context and clears the sticky pair.\<close>

theorem PKCS12_bundle_yields_in_order:
  assumes "last_handler ctx = None" and "last_handler_ctx ctx = None"
    and "\<not> file_error ctx"
    and "file_load_read env ctx ui = (Some (None, None, blob), bp, es)"
    and "OPENSSL_zalloc_ok env"
    and "d2i_PKCS12 cx blob = Some p12"
    and "PKCS12_find_pass cx ui p12 = (Some pass, es', cs)"
    and "PKCS12_parse cx p12 pass = Some (pkey, cert, chain)"
    and "sk_new_null_ok cx" and "\<forall>i. OSSL_STORE_INFO_new_ok cx i"
    and "\<forall>st i. sk_push_ok cx st i"
    and "\<forall>h\<in>set (tl (file_handlers cx)).
           out_info (try_decode h None None (Some blob) None ui) = None"
  shows "successive_loads (file_handlers cx) env ui (length chain + 2) ctx w
           = Some (Inr (Some (INFO_PKEY pkey) # Some (INFO_CERT cert)
                          # map (\<lambda>ca. Some (INFO_CERT ca)) chain,
                        ctx\<lparr>file := bp, last_handler := Some (PKCS12_handler cx),
                            last_handler_ctx := Some []\<rparr>,
                        \<lparr>errq = [], log = log w\<rparr>))
         \<and> eof_PKCS12 (Some [])
         \<and> file_load_try_repeat
             (ctx\<lparr>file := bp, last_handler := Some (PKCS12_handler cx),
                  last_handler_ctx := Some []\<rparr>) ui \<lparr>errq = [], log = log w\<rparr>
           = Inr (ctx\<lparr>file := bp, last_handler := None, last_handler_ctx := None\<rparr>, None,
                  \<lparr>errq = [], log = log w @ [EV_destroy_ctx ''PKCS12'' (Some [])]\<rparr>)"
proof -
  let ?h = "PKCS12_handler cx"
  let ?rest = "INFO_CERT cert # map INFO_CERT chain"
  let ?ctx1 = "ctx\<lparr>file := bp, last_handler := Some ?h, last_handler_ctx := Some ?rest\<rparr>"
  let ?w1 = "\<lparr>errq = [], log = log w\<rparr> :: p12_ctx fx"
  note first = try_decode_PKCS12_first [OF assms(6-11)]
  have rpt: "file_load_try_repeat ctx ui w = Inr (ctx, None, w)"
    using assms(1) by (simp add: file_load_try_repeat_def)
  have hs: "file_handlers cx = [] @ ?h # tl (file_handlers cx)"
    by (simp add: file_handlers_def)
  have pre: "\<forall>h'\<in>set []. out_info (try_decode h' None None (Some blob) None ui) = None"
    by simp
  have rep: "repeatable ?h" by (simp add: PKCS12_handler_def)
  have ne: "\<forall>nm buf. INFO_PKEY pkey \<noteq> INFO_EMBEDDED nm buf" by simp
  have l1: "file_load (file_handlers cx) env ctx ui w
              = Some (Inr \<lparr>ld_ctx = ?ctx1, ld_result = Some (INFO_PKEY pkey),
                           ld_matchcount = 1, ld_fx = ?w1\<rparr>)"
    using file_load_adopts [OF rpt assms(3,4) pre assms(12) conjunct1 [OF first] rep
        assms(5) ne] first
    by (subst hs) simp
  have d: "successive_loads (file_handlers cx) env ui (length ?rest) ?ctx1 ?w1
             = Some (Inr (map Some ?rest, ?ctx1\<lparr>last_handler_ctx := Some []\<rparr>, ?w1))"
    by (rule successive_loads_PKCS12_drain) simp_all
  have "successive_loads (file_handlers cx) env ui (Suc (length ?rest)) ctx w
           = Some (Inr (Some (INFO_PKEY pkey) # map Some ?rest,
                        ?ctx1\<lparr>last_handler_ctx := Some []\<rparr>, ?w1))"
    by (simp only: successive_loads.simps l1 d option.case sum.case prod.case
        load_state.simps)
  then have a: "successive_loads (file_handlers cx) env ui (length chain + 2) ctx w
           = Some (Inr (Some (INFO_PKEY pkey) # Some (INFO_CERT cert)
                          # map (\<lambda>ca. Some (INFO_CERT ca)) chain,
                        ctx\<lparr>file := bp, last_handler := Some (PKCS12_handler cx),
                            last_handler_ctx := Some []\<rparr>,
                        \<lparr>errq = [], log = log w\<rparr>))"
    by (simp add: comp_def)
  have b: "eof_PKCS12 (Some [])" by (simp add: eof_PKCS12_def)
  have c: "file_load_try_repeat
             (ctx\<lparr>file := bp, last_handler := Some (PKCS12_handler cx),
                  last_handler_ctx := Some []\<rparr>) ui \<lparr>errq = [], log = log w\<rparr>
           = Inr (ctx\<lparr>file := bp, last_handler := None, last_handler_ctx := None\<rparr>, None,
                  \<lparr>errq = [], log = log w @ [EV_destroy_ctx ''PKCS12'' (Some [])]\<rparr>)"
    by (simp add: file_load_try_repeat_def PKCS12_handler_def try_decode_PKCS12_def
        PKCS12_shift_def destroy_ctx_PKCS12_def emit_def raise_err_def)
  from a b c show ?thesis by simp
qed

theorem PKCS12_bundle_yields_in_order_witness:
  "successive_loads (file_handlers codec_p12) list_env ui_secret 4 ctx_p12_unread w_empty
     = Some (Inr ([Some (INFO_PKEY 10), Some (INFO_CERT 20), Some (INFO_CERT 21),
                   Some (INFO_CERT 22)],
                  ctx_p12_unread\<lparr>file := [], last_handler := Some (PKCS12_handler codec_p12),
                                 last_handler_ctx := Some []\<rparr>,
                  w_empty))
   \<and> file_load_try_repeat
       (ctx_p12_unread\<lparr>file := [], last_handler := Some (PKCS12_handler codec_p12),
                       last_handler_ctx := Some []\<rparr>) ui_secret w_empty
     = Inr (ctx_p12_unread\<lparr>file := [], last_handler := None, last_handler_ctx := None\<rparr>, None,
            \<lparr>errq = [], log = [EV_destroy_ctx ''PKCS12'' (Some [])]\<rparr>)"
proof -
  have 1: "last_handler ctx_p12_unread = None" "last_handler_ctx ctx_p12_unread = None"
    "\<not> file_error ctx_p12_unread"
    by (simp_all add: ctx_p12_unread_def file_error_def)
  have 4: "file_load_read list_env ctx_p12_unread ui_secret = (Some (None, None, ''pfx''), [], [])"
    by (simp add: file_load_read_def file_read_asn1_def ctx_p12_unread_def list_env_def)
  have 5: "OPENSSL_zalloc_ok list_env" by (simp add: list_env_def)
  have 6: "d2i_PKCS12 codec_p12 ''pfx'' = Some 1" by (simp add: codec_p12_def codec_none_def)
  have 7: "PKCS12_find_pass codec_p12 ui_secret 1
             = (Some ''secret'', [],
                [VERIFY_MAC (Some []), VERIFY_MAC None, GET_PASS ''PKCS12 import password'',
                 VERIFY_MAC (Some ''secret'')])"
    by (simp add: PKCS12_find_pass_def codec_p12_def codec_none_def file_get_pass_def
        ui_secret_def)
  have 8: "PKCS12_parse codec_p12 1 ''secret'' = Some (10, 20, [21, 22])"
    by (simp add: codec_p12_def codec_none_def)
  have 9: "sk_new_null_ok codec_p12" "\<forall>i. OSSL_STORE_INFO_new_ok codec_p12 i"
    "\<forall>st i. sk_push_ok codec_p12 st i"
    by (simp_all add: codec_p12_def codec_none_def)
  have 12: "\<forall>h\<in>set (tl (file_handlers codec_p12)).
              out_info (try_decode h None None (Some ''pfx'') None ui_secret) = None"
    using codec_p12_others_no_match by (simp add: file_handlers_def)
  from PKCS12_bundle_yields_in_order [OF 1 4 5 6 7 8 9 12, of w_empty]
  show ?thesis by (simp add: w_empty_def numeral_eq_Suc)
qed

subsection \<open>Two handlers accept the same blob\<close>

text \<open>C1, at the input where it fails: a raw blob that both the PKCS12 handler and the
  certificate handler accept.  The PKCS12 handler matches first and leaves a context; when
  the certificate handler matches, line 605 calls \<^verbatim>\<open>handler->destroy_ctx\<close> of the certificate
  handler, which is \<^verbatim>\<open>NULL\<close>.  \<^verbatim>\<open>file_load\<close> ends in that call: no ambiguity is reported
  and nothing is returned to the caller.\<close>

theorem file_load_PKCS12_ambiguity_calls_NULL:
  "out_info (try_decode (PKCS12_handler codec_bundle_and_cert) None None (Some ''pfx'') None
               ui_cancel) = Some (INFO_PKEY 10)
   \<and> out_info (try_decode (X509Certificate_handler codec_bundle_and_cert) None None
                 (Some ''pfx'') None ui_cancel) = Some (INFO_CERT 30)
   \<and> destroy_ctx (X509Certificate_handler codec_bundle_and_cert) = None
   \<and> file_load (file_handlers codec_bundle_and_cert) list_env ctx_p12_unread ui_cancel w_empty
       = Some (Inl (NULL_CALL ''X509Certificate''))"
proof -
  have a: "try_decode (PKCS12_handler codec_bundle_and_cert) None None (Some ''pfx'') None
               ui_cancel
           = \<lparr>out_info = Some (INFO_PKEY 10), out_ctx = Some [INFO_CERT 20], out_errs = [],
              out_calls = [D2I_PKCS12, VERIFY_MAC (Some []), PARSE_PKCS12 []]\<rparr>"
    by (simp add: PKCS12_handler_def try_decode_PKCS12_def no_match_def
        codec_bundle_and_cert_def codec_none_def d2i_def PKCS12_find_pass_def
        PKCS12_build_ctx_def OSSL_STORE_INFO_new_def PKCS12_shift_def)
  have b: "try_decode (X509Certificate_handler codec_bundle_and_cert) None None
                 (Some ''pfx'') None ui_cancel
           = \<lparr>out_info = Some (INFO_CERT 30), out_ctx = None, out_errs = [],
              out_calls = [D2I_X509_AUX]\<rparr>"
    by (simp add: X509Certificate_handler_def try_decode_X509Certificate_def
        codec_bundle_and_cert_def codec_none_def d2i_def OSSL_STORE_INFO_new_def)
  have c: "destroy_ctx (X509Certificate_handler codec_bundle_and_cert) = None"
    by (simp add: X509Certificate_handler_def)
  have n: "name (X509Certificate_handler codec_bundle_and_cert) = ''X509Certificate''"
    by (simp add: X509Certificate_handler_def)
  have s1: "file_load_try_handler None None ''pfx'' ui_cancel
              (PKCS12_handler codec_bundle_and_cert)
              \<lparr>matchcount = 0, result = None, handler_ctx = None, matching_handlers = [],
               pass_fx = w_empty\<rparr>
            = Inr \<lparr>matchcount = 1, result = Some (INFO_PKEY 10),
                   handler_ctx = Some [INFO_CERT 20],
                   matching_handlers = [PKCS12_handler codec_bundle_and_cert],
                   pass_fx = w_empty\<rparr>"
    by (simp add: file_load_try_handler_def a Let_def)
  have s2: "file_load_try_handler None None ''pfx'' ui_cancel
              (X509Certificate_handler codec_bundle_and_cert)
              \<lparr>matchcount = 1, result = Some (INFO_PKEY 10),
               handler_ctx = Some [INFO_CERT 20],
               matching_handlers = [PKCS12_handler codec_bundle_and_cert],
               pass_fx = w_empty\<rparr>
            = Inl (NULL_CALL ''X509Certificate'')"
    by (simp add: file_load_try_handler_def b c n Let_def)
  have p: "file_load_try_decode_pass (file_handlers codec_bundle_and_cert) list_env
             (Some (ctx_p12_unread\<lparr>file := []\<rparr>)) None None ''pfx'' ui_cancel (- 1) w_empty
           = Inl (NULL_CALL ''X509Certificate'')"
    by (simp add: file_load_try_decode_pass_def file_handlers_def s1 s2 list_env_def)
  have d: "file_load_try_decode (file_handlers codec_bundle_and_cert) list_env
             (Some (ctx_p12_unread\<lparr>file := []\<rparr>)) None None ''pfx'' ui_cancel (- 1) w_empty
           = Some (Inl (NULL_CALL ''X509Certificate''))"
    by (subst file_load_try_decode.simps) (simp add: p)
  have rd: "file_load_read list_env ctx_p12_unread ui_cancel = (Some (None, None, ''pfx''), [], [])"
    by (simp add: file_load_read_def file_read_asn1_def ctx_p12_unread_def list_env_def)
  have bd: "file_load_body (file_handlers codec_bundle_and_cert) list_env ui_cancel
              \<lparr>ld_ctx = ctx_p12_unread, ld_result = None, ld_matchcount = - 1, ld_fx = w_empty\<rparr>
            = Some (Inl (NULL_CALL ''X509Certificate''))"
    by (simp add: file_load_body_def rd d Let_def)
  have lp: "file_load_loop (file_handlers codec_bundle_and_cert) list_env ui_cancel
              \<lparr>ld_ctx = ctx_p12_unread, ld_result = None, ld_matchcount = - 1, ld_fx = w_empty\<rparr>
            = Some (Inl (NULL_CALL ''X509Certificate''))"
    by (subst file_load_loop.simps) (simp add: bd)
  have rpt: "file_load_try_repeat ctx_p12_unread ui_cancel w_empty
               = Inr (ctx_p12_unread, None, w_empty)"
    by (simp add: file_load_try_repeat_def ctx_p12_unread_def)
  have ok: "\<not> file_error ctx_p12_unread"
    by (simp add: file_error_def ctx_p12_unread_def)
  have "file_load (file_handlers codec_bundle_and_cert) list_env ctx_p12_unread ui_cancel w_empty
       = Some (Inl (NULL_CALL ''X509Certificate''))"
    by (simp add: file_load_def rpt ok lp)
  with a b c show ?thesis by simp
qed

subsection \<open>The info a pass returns\<close>




subsection \<open>The sticky pair is consistent\<close>

lemma sticky_step_refl: "sticky_step hs ui c c"
  by (simp add: sticky_step_def)

lemma sticky_pair_set_cong:
  "last_handler c' = last_handler c \<Longrightarrow> last_handler_ctx c' = last_handler_ctx c \<Longrightarrow>
   sticky_pair_set hs ui c' = sticky_pair_set hs ui c"
  by (simp add: sticky_pair_set_def)

lemma sticky_step_trans:
  "sticky_step hs ui a b \<Longrightarrow> sticky_step hs ui b c \<Longrightarrow> sticky_step hs ui a c"
  unfolding sticky_step_def using sticky_pair_set_cong [of c b hs ui] by auto

lemma sticky_pair_set_handler:
  "sticky_pair_set hs ui c \<Longrightarrow> \<exists>h\<in>set hs. repeatable h \<and> last_handler c = Some h"
proof -
  assume "sticky_pair_set hs ui c"
  then obtain pn ph d h others where
    a: "accepting hs pn ph d ui = h # others" and r: "repeatable h \<and> last_handler c = Some h"
    by (auto simp: sticky_pair_set_def)
  from a have "h \<in> set (accepting hs pn ph d ui)" by simp
  then have "h \<in> set hs" by (simp add: accepting_def)
  with r show ?thesis by blast
qed

lemma sticky_step_ok: "sticky_pair_ok c \<Longrightarrow> sticky_step hs ui c c' \<Longrightarrow> sticky_pair_ok c'"
  unfolding sticky_step_def sticky_pair_ok_def using sticky_pair_set_handler [of hs ui c']
  by auto

lemma emit_log [simp]: "log (emit evs w) = log w @ evs"
  by (simp add: emit_def)

lemma file_load_try_handler_log:
  assumes "file_load_try_handler pn ph d ui h st = Inr st'"
  shows "\<exists>evs. log (pass_fx st') = log (pass_fx st) @ evs"
  using assms
  by (auto simp: file_load_try_handler_def Let_def split: option.splits if_splits sum.splits)

lemma file_load_try_handlers_log:
  assumes "file_load_try_handlers pn ph d ui hs st = Inr st'"
  shows "\<exists>evs. log (pass_fx st') = log (pass_fx st) @ evs"
  using assms
proof (induction hs arbitrary: st)
  case Nil
  then show ?case by simp
next
  case (Cons h hs)
  from Cons.prems obtain st1 where
    1: "file_load_try_handler pn ph d ui h st = Inr st1"
    and 2: "file_load_try_handlers pn ph d ui hs st1 = Inr st'"
    by (auto split: sum.splits)
  from file_load_try_handler_log [OF 1] Cons.IH [OF 2] show ?case
    by auto
qed

text \<open>The variables of the loop over the handlers after one handler, and after all of
  them: \<^verbatim>\<open>matching_handlers\<close> collects the handlers that accept the blob, \<^verbatim>\<open>*matchcount\<close>
  counts them, and \<^verbatim>\<open>handler_ctx\<close> is the context of the first while it is the only one.\<close>

lemma file_load_try_handler_vars:
  assumes "file_load_try_handler pn ph d ui h st = Inr st'"
  shows "(out_info (try_decode h pn ph (Some d) None ui) = None
            \<longrightarrow> matching_handlers st' = matching_handlers st \<and> matchcount st' = matchcount st
                \<and> handler_ctx st' = handler_ctx st)
         \<and> (out_info (try_decode h pn ph (Some d) None ui) \<noteq> None
            \<longrightarrow> matching_handlers st' = matching_handlers st @ [h]
                \<and> matchcount st' = matchcount st + 1
                \<and> handler_ctx st'
                    = (if matchcount st = 0 then out_ctx (try_decode h pn ph (Some d) None ui)
                       else None))"
  using assms
  by (auto simp: file_load_try_handler_def Let_def split: option.splits if_splits sum.splits)

lemma file_load_try_handlers_vars:
  assumes "file_load_try_handlers pn ph d ui hs st = Inr st'"
    and "matchcount st = int (length (matching_handlers st))"
    and "handler_ctx st
           = (case matching_handlers st of
                [h] \<Rightarrow> out_ctx (try_decode h pn ph (Some d) None ui)
              | _ \<Rightarrow> None)"
  shows "matching_handlers st' = matching_handlers st @ accepting hs pn ph d ui
         \<and> matchcount st' = int (length (matching_handlers st'))
         \<and> handler_ctx st'
             = (case matching_handlers st' of
                  [h] \<Rightarrow> out_ctx (try_decode h pn ph (Some d) None ui)
                | _ \<Rightarrow> None)"
  using assms
proof (induction hs arbitrary: st)
  case Nil
  then show ?case by (simp add: accepting_def)
next
  case (Cons h hs)
  from Cons.prems(1) obtain st1 where
    1: "file_load_try_handler pn ph d ui h st = Inr st1"
    and 2: "file_load_try_handlers pn ph d ui hs st1 = Inr st'"
    by (auto split: sum.splits)
  note v = file_load_try_handler_vars [OF 1]
  show ?case
  proof (cases "out_info (try_decode h pn ph (Some d) None ui) = None")
    case True
    with v have e: "matching_handlers st1 = matching_handlers st"
      "matchcount st1 = matchcount st" "handler_ctx st1 = handler_ctx st"
      by simp_all
    from Cons.IH [OF 2] e Cons.prems(2,3) True show ?thesis
      by (simp add: accepting_def)
  next
    case False
    with v have e: "matching_handlers st1 = matching_handlers st @ [h]"
      "matchcount st1 = matchcount st + 1"
      "handler_ctx st1
         = (if matchcount st = 0 then out_ctx (try_decode h pn ph (Some d) None ui) else None)"
      by simp_all
    have m1: "matchcount st1 = int (length (matching_handlers st1))"
      using e Cons.prems(2) by simp
    have c1: "handler_ctx st1
           = (case matching_handlers st1 of
                [h] \<Rightarrow> out_ctx (try_decode h pn ph (Some d) None ui)
              | _ \<Rightarrow> None)"
      using e Cons.prems(2) by (cases "matching_handlers st") (simp_all split: list.splits)
    from Cons.IH [OF 2 m1 c1] e False show ?thesis
      by (simp add: accepting_def)
  qed
qed

lemma file_load_try_decode_pass_step:
  assumes "file_load_try_decode_pass hs env (Some c) pn ph d ui mc w = Inr r"
  shows "\<exists>c'. ret_ctx r = Some c' \<and> file c' = file c \<and> errcnt c' = errcnt c
              \<and> is_pem c' = is_pem c \<and> sticky_step hs ui c c'
              \<and> (\<exists>evs. log (ret_fx r) = log w @ evs)"
proof (cases "OPENSSL_zalloc_ok env")
  case False
  with assms show ?thesis
    by (auto simp: file_load_try_decode_pass_def sticky_step_def)
next
  case True
  let ?st0 = "\<lparr>matchcount = 0, result = None, handler_ctx = None, matching_handlers = [],
               pass_fx = w\<rparr>"
  from True assms obtain st where
    1: "file_load_try_handlers pn ph d ui hs ?st0 = Inr st"
    by (auto simp: file_load_try_decode_pass_def split: sum.splits)
  from file_load_try_handlers_log [OF 1] have g: "\<exists>evs. log (pass_fx st) = log w @ evs"
    by simp
  from file_load_try_handlers_vars [OF 1] have
    m: "matching_handlers st = accepting hs pn ph d ui"
    and n: "matchcount st = int (length (matching_handlers st))"
    and x: "handler_ctx st
             = (case matching_handlers st of
                  [h] \<Rightarrow> out_ctx (try_decode h pn ph (Some d) None ui)
                | _ \<Rightarrow> None)"
    by simp_all
  show ?thesis
  proof (cases "matching_handlers st")
    case Nil
    with assms True 1 n g show ?thesis
      by (auto simp: file_load_try_decode_pass_def Let_def sticky_step_def)
  next
    case (Cons h0 others)
    show ?thesis
    proof (cases "repeatable h0")
      case False
      with assms True 1 n g Cons show ?thesis
        by (auto simp: file_load_try_decode_pass_def Let_def sticky_step_def)
    next
      case rp: True
      let ?c' = "c\<lparr>last_handler := Some h0, last_handler_ctx := handler_ctx st\<rparr>"
      from assms True 1 n Cons rp have r: "ret_ctx r = Some ?c'"
        and f: "ret_fx r = (if matchcount st > 1
                        then raise_err
                               [OSSL_STOREerr F_FILE_LOAD_TRY_DECODE R_AMBIGUOUS_CONTENT_TYPE []]
                               (pass_fx st)
                        else pass_fx st)"
        by (auto simp: file_load_try_decode_pass_def Let_def)
      from x Cons have "handler_ctx st
          = (if others = [] then out_ctx (try_decode h0 pn ph (Some d) None ui) else None)"
        by (cases others) simp_all
      with m Cons rp have "sticky_pair_set hs ui ?c'"
        unfolding sticky_pair_set_def
        by (intro exI [of _ pn] exI [of _ ph] exI [of _ d] exI [of _ h0] exI [of _ others])
          simp
      then have "sticky_step hs ui c ?c'" by (simp add: sticky_step_def)
      moreover from f g have "\<exists>evs. log (ret_fx r) = log w @ evs" by auto
      ultimately show ?thesis using r by simp
    qed
  qed
qed

lemma file_load_try_decode_step:
  assumes "file_load_try_decode hs env ctxo pn ph d ui mc w = Some y"
  shows "\<forall>c r. ctxo = Some c \<and> y = Inr r \<longrightarrow>
           (\<exists>c'. ret_ctx r = Some c' \<and> file c' = file c \<and> errcnt c' = errcnt c
                 \<and> is_pem c' = is_pem c \<and> sticky_step hs ui c c'
                 \<and> (\<exists>evs. log (ret_fx r) = log w @ evs))"
proof (rule file_load_try_decode.raw_induct
    [where P = "\<lambda>hs env ctxo pn ph d ui mc w y. \<forall>c r. ctxo = Some c \<and> y = Inr r \<longrightarrow>
           (\<exists>c'. ret_ctx r = Some c' \<and> file c' = file c \<and> errcnt c' = errcnt c
                 \<and> is_pem c' = is_pem c \<and> sticky_step hs ui c c'
                 \<and> (\<exists>evs. log (ret_fx r) = log w @ evs))",
     OF _ assms], goal_cases)
  case (1 f hs env ctxo pn ph d ui mc w y)
  show ?case
  proof (intro allI impI)
    fix c r
    assume a: "ctxo = Some c \<and> y = Inr r"
    show "\<exists>c'. ret_ctx r = Some c' \<and> file c' = file c \<and> errcnt c' = errcnt c
                 \<and> is_pem c' = is_pem c \<and> sticky_step hs ui c c'
                 \<and> (\<exists>evs. log (ret_fx r) = log w @ evs)"
    proof (cases "file_load_try_decode_pass hs env (Some c) pn ph d ui mc w")
      case (Inl fl)
      with 1(2) a show ?thesis by simp
    next
      case (Inr r0)
      from file_load_try_decode_pass_step [OF Inr] obtain c0 evs0 where
        c0: "ret_ctx r0 = Some c0" "file c0 = file c" "errcnt c0 = errcnt c"
          "is_pem c0 = is_pem c" "sticky_step hs ui c c0" "log (ret_fx r0) = log w @ evs0"
        by blast
      show ?thesis
      proof (cases "ret_info r0")
        case None
        with 1(2) a Inr c0 show ?thesis by auto
      next
        case (Some i)
        show ?thesis
        proof (cases i)
          case (INFO_EMBEDDED nm buf)
          with 1(2) a Inr Some c0 have
            "f hs env (Some c0) nm ph buf ui (ret_matchcount r0) (ret_fx r0) = Some (Inr r)"
            by simp
          from 1(1) [OF this] obtain c' evs where
            "ret_ctx r = Some c'" "file c' = file c0" "errcnt c' = errcnt c0"
            "is_pem c' = is_pem c0" "sticky_step hs ui c0 c'"
            "log (ret_fx r) = log (ret_fx r0) @ evs"
            by blast
          with c0 show ?thesis
            by (auto intro: sticky_step_trans)
        qed (use 1(2) a Inr Some c0 in auto)
      qed
    qed
  qed
qed

lemma sticky_step_file:
  "sticky_step hs ui (c\<lparr>file := bp\<rparr>) c' \<Longrightarrow> sticky_step hs ui c c'"
  by (simp add: sticky_step_def)

lemma file_load_body_step:
  assumes "file_load_body hs env ui v = Some (Inr v')"
  shows "sticky_step hs ui (ld_ctx v) (ld_ctx v')
         \<and> (\<exists>evs. log (ld_fx v') = log (ld_fx v) @ evs)"
proof -
  obtain rd bp es where rd: "file_load_read env (ld_ctx v) ui = (rd, bp, es)"
    by (cases "file_load_read env (ld_ctx v) ui") auto
  show ?thesis
  proof (cases rd)
    case None
    with assms rd show ?thesis
      by (auto simp: file_load_body_def Let_def sticky_step_def split: sum.splits)
  next
    case (Some rec)
    obtain pn ph d where rec: "rec = (pn, ph, d)" by (cases rec) auto
    let ?c1 = "(ld_ctx v)\<lparr>file := bp\<rparr>"
    from assms rd Some rec obtain r where
      t: "file_load_try_decode hs env (Some ?c1) pn ph d ui (- 1) (raise_err es (ld_fx v))
            = Some (Inr r)"
      and v': "v' = \<lparr>ld_ctx = (case ret_ctx r of None \<Rightarrow> ?c1 | Some c \<Rightarrow> c),
                     ld_result = ret_info r, ld_matchcount = ret_matchcount r,
                     ld_fx = ret_fx r\<rparr>"
      by (auto simp: file_load_body_def Let_def split: option.splits sum.splits)
    from file_load_try_decode_step [OF t] obtain c' evs where
      "ret_ctx r = Some c'" "sticky_step hs ui ?c1 c'"
      "log (ret_fx r) = log (raise_err es (ld_fx v)) @ evs"
      by blast
    with v' show ?thesis by (auto intro: sticky_step_file)
  qed
qed

lemma file_load_loop_step:
  assumes "file_load_loop hs env ui v = Some y"
  shows "\<forall>v'. y = Inr v' \<longrightarrow>
           sticky_step hs ui (ld_ctx v) (ld_ctx v')
           \<and> (\<exists>evs. log (ld_fx v') = log (ld_fx v) @ evs)"
proof (rule file_load_loop.raw_induct
    [where P = "\<lambda>hs env ui v y. \<forall>v'. y = Inr v' \<longrightarrow>
           sticky_step hs ui (ld_ctx v) (ld_ctx v')
           \<and> (\<exists>evs. log (ld_fx v') = log (ld_fx v) @ evs)",
     OF _ assms], goal_cases)
  case (1 f hs env ui v y)
  show ?case
  proof (intro allI impI)
    fix v'
    assume y: "y = Inr v'"
    from 1(2) y obtain v1 where
      b: "file_load_body hs env ui v = Some (Inr v1)"
      by (auto split: option.splits sum.splits)
    note s1 = file_load_body_step [OF b]
    show "sticky_step hs ui (ld_ctx v) (ld_ctx v')
           \<and> (\<exists>evs. log (ld_fx v') = log (ld_fx v) @ evs)"
    proof (cases "file_load_continue env v1")
      case (Inl fl)
      with 1(2) y b show ?thesis by simp
    next
      case (Inr again)
      show ?thesis
      proof (cases again)
        case True
        with 1(2) y b Inr have "f hs env ui v1 = Some (Inr v')" by simp
        from 1(1) [OF this] s1 show ?thesis
          by (auto intro: sticky_step_trans)
      next
        case False
        with 1(2) y b Inr have "v' = v1" by simp
        with s1 show ?thesis by simp
      qed
    qed
  qed
qed

lemma file_load_sticky:
  assumes ok: "sticky_pair_ok ctx"
    and l: "file_load hs env ctx ui w = Some (Inr v)"
  shows "sticky_pair_ok (ld_ctx v)
         \<and> ((last_handler (ld_ctx v) = last_handler ctx
              \<and> (last_handler_ctx (ld_ctx v) = last_handler_ctx ctx
                  \<or> (\<exists>h. last_handler ctx = Some h
                        \<and> ld_result v
                            = out_info (try_decode h None None None (last_handler_ctx ctx) ui)
                        \<and> ld_result v \<noteq> None
                        \<and> last_handler_ctx (ld_ctx v)
                            = out_ctx (try_decode h None None None (last_handler_ctx ctx) ui))))
             \<or> (sticky_pair_set hs ui (ld_ctx v)
                 \<and> (\<forall>h0. last_handler ctx = Some h0 \<longrightarrow>
                       destroy_ctx h0 \<noteq> None
                       \<and> EV_destroy_ctx (name h0)
                            (out_ctx (try_decode h0 None None None (last_handler_ctx ctx) ui))
                          \<in> set (log (ld_fx v))))
             \<or> (last_handler (ld_ctx v) = None \<and> last_handler_ctx (ld_ctx v) = None
                 \<and> (\<forall>h0. last_handler ctx = Some h0 \<longrightarrow>
                       destroy_ctx h0 \<noteq> None
                       \<and> EV_destroy_ctx (name h0)
                            (out_ctx (try_decode h0 None None None (last_handler_ctx ctx) ui))
                          \<in> set (log (ld_fx v)))))"
proof (cases "file_load_try_repeat ctx ui w")
  case (Inl fl)
  with l show ?thesis by (simp add: file_load_def)
next
  case (Inr t)
  obtain ctx1 res w1 where t: "t = (ctx1, res, w1)" by (cases t) auto
  show ?thesis
  proof (cases res)
    case (Some obj)
    with l Inr t have v: "v = \<lparr>ld_ctx = ctx1, ld_result = res, ld_matchcount = - 1, ld_fx = w1\<rparr>"
      by (simp add: file_load_def)
    from Inr t Some obtain h where
      "last_handler ctx = Some h"
      "ctx1 = ctx\<lparr>last_handler_ctx := out_ctx (try_decode h None None None
                                                  (last_handler_ctx ctx) ui)\<rparr>"
      "res = out_info (try_decode h None None None (last_handler_ctx ctx) ui)"
      by (auto simp: file_load_try_repeat_def Let_def split: option.splits)
    with v Some show ?thesis by (simp add: sticky_pair_ok_def)
  next
    case None
    from Inr t None ok have td:
      "last_handler ctx1 = None \<and> last_handler_ctx ctx1 = None
         \<and> file ctx1 = file ctx \<and> errcnt ctx1 = errcnt ctx \<and> is_pem ctx1 = is_pem ctx
         \<and> (last_handler ctx = None \<longrightarrow> w1 = w)
         \<and> (\<forall>h0. last_handler ctx = Some h0 \<longrightarrow>
               destroy_ctx h0 \<noteq> None \<and>
               log w1 = log w @ [EV_destroy_ctx (name h0)
                                   (out_ctx (try_decode h0 None None None (last_handler_ctx ctx)
                                               ui))])"
      by (intro file_load_try_repeat_teardown) (simp_all add: sticky_pair_ok_def)
    have fin: "sticky_step hs ui ctx1 (ld_ctx v) \<and> (\<exists>evs. log (ld_fx v) = log w1 @ evs)"
    proof (cases "file_error ctx1")
      case True
      with l Inr t None have "v = \<lparr>ld_ctx = ctx1, ld_result = None, ld_matchcount = - 1,
                                      ld_fx = w1\<rparr>"
        by (simp add: file_load_def)
      then show ?thesis by (simp add: sticky_step_def)
    next
      case False
      let ?v0 = "\<lparr>ld_ctx = ctx1, ld_result = None, ld_matchcount = - 1, ld_fx = w1\<rparr>"
      from l Inr t None False obtain v1 where
        lp: "file_load_loop hs env ui ?v0 = Some (Inr v1)"
        and v: "v = v1 \<or> v = v1\<lparr>ld_result := None\<rparr>"
        by (auto simp: file_load_def split: option.splits sum.splits if_splits)
      from file_load_loop_step [OF lp] v show ?thesis by auto
    qed
    from td have ok1: "sticky_pair_ok ctx1" by (simp add: sticky_pair_ok_def)
    from sticky_step_ok [OF ok1] fin have ok': "sticky_pair_ok (ld_ctx v)" by blast
    from fin td have dl: "\<forall>h0. last_handler ctx = Some h0 \<longrightarrow>
                       destroy_ctx h0 \<noteq> None
                       \<and> EV_destroy_ctx (name h0)
                            (out_ctx (try_decode h0 None None None (last_handler_ctx ctx) ui))
                          \<in> set (log (ld_fx v))"
      by auto
    from fin td have "sticky_pair_set hs ui (ld_ctx v)
        \<or> (last_handler (ld_ctx v) = None \<and> last_handler_ctx (ld_ctx v) = None)"
      by (auto simp: sticky_step_def)
    with ok' dl show ?thesis by blast
  qed
qed

lemma file_open_sticky:
  "file_open env uri = Inr (Some ctx, es, paths) \<Longrightarrow>
   last_handler ctx = None \<and> last_handler_ctx ctx = None"
  by (auto simp: file_open_def split: sum.splits if_splits option.splits)

lemma loader_reachable_sticky: "loader_reachable hs env ctx \<Longrightarrow> sticky_pair_ok ctx"
proof (induction rule: loader_reachable.induct)
  case (opened uri ctx es paths)
  from file_open_sticky [OF this] show ?case by (simp add: sticky_pair_ok_def)
next
  case (loaded ctx ui_method w v)
  from file_load_sticky [OF loaded.IH loaded.hyps(2)] show ?case by simp
qed

lemma file_close_sticky:
  assumes "file_close ctx w = Inr (rc, ctx', w')"
  shows "rc = 1 \<and> last_handler ctx' = None
         \<and> (sticky_pair_ok ctx \<longrightarrow> last_handler_ctx ctx' = None)
         \<and> log w' = log w
             @ (case last_handler ctx of
                  None \<Rightarrow> []
                | Some h \<Rightarrow> [EV_destroy_ctx (name h) (last_handler_ctx ctx)])
             @ [EV_BIO_free_all, EV_free_loader_ctx]"
  using assms
  by (auto simp: file_close_def sticky_pair_ok_def split: option.splits)

text \<open>C10: \<^verbatim>\<open>file_open\<close> returns a loader with both sticky fields \<^verbatim>\<open>NULL\<close>; in every
  reachable loader state a context is held only together with its handler; a
  \<^verbatim>\<open>file_load\<close> that returns keeps that, and leaves the pair in one of three ways.  The
  handler stays, with its context as it was or, when the handler yielded the returned
  object, as the handler's own \<^verbatim>\<open>try_decode\<close> left it.  Or handler and context are set
  together by a dispatch: the handler is the first handler of the table that accepts a
  blob and is repeatable, the context is the one that handler's \<^verbatim>\<open>try_decode\<close> produced for
  that blob (\<^verbatim>\<open>NULL\<close> when another handler accepts the blob too), and a previous context has
  been given to its own handler's \<^verbatim>\<open>destroy_ctx\<close>.  Or both are \<^verbatim>\<open>NULL\<close>, a previous context
  having been given to its own handler's \<^verbatim>\<open>destroy_ctx\<close>.  \<^verbatim>\<open>file_close\<close> gives a held context
  to its handler's \<^verbatim>\<open>destroy_ctx\<close> and clears both fields before it frees the stream and the
  loader.\<close>

theorem sticky_pair_invariant:
  "(file_open env uri = Inr (Some ctx0, es0, paths0)
      \<longrightarrow> last_handler ctx0 = None \<and> last_handler_ctx ctx0 = None
          \<and> loader_reachable hs env ctx0)
   \<and> (loader_reachable hs env ctx \<longrightarrow> sticky_pair_ok ctx)
   \<and> (sticky_pair_ok ctx \<and> file_load hs env ctx ui w = Some (Inr v)
      \<longrightarrow> sticky_pair_ok (ld_ctx v)
         \<and> ((last_handler (ld_ctx v) = last_handler ctx
              \<and> (last_handler_ctx (ld_ctx v) = last_handler_ctx ctx
                  \<or> (\<exists>h. last_handler ctx = Some h
                        \<and> ld_result v
                            = out_info (try_decode h None None None (last_handler_ctx ctx) ui)
                        \<and> ld_result v \<noteq> None
                        \<and> last_handler_ctx (ld_ctx v)
                            = out_ctx (try_decode h None None None (last_handler_ctx ctx) ui))))
             \<or> (sticky_pair_set hs ui (ld_ctx v)
                 \<and> (\<forall>h0. last_handler ctx = Some h0 \<longrightarrow>
                       destroy_ctx h0 \<noteq> None
                       \<and> EV_destroy_ctx (name h0)
                            (out_ctx (try_decode h0 None None None (last_handler_ctx ctx) ui))
                          \<in> set (log (ld_fx v))))
             \<or> (last_handler (ld_ctx v) = None \<and> last_handler_ctx (ld_ctx v) = None
                 \<and> (\<forall>h0. last_handler ctx = Some h0 \<longrightarrow>
                       destroy_ctx h0 \<noteq> None
                       \<and> EV_destroy_ctx (name h0)
                            (out_ctx (try_decode h0 None None None (last_handler_ctx ctx) ui))
                          \<in> set (log (ld_fx v))))))
   \<and> (file_close ctx w = Inr (rc, ctx', w')
      \<longrightarrow> rc = 1 \<and> last_handler ctx' = None
         \<and> (sticky_pair_ok ctx \<longrightarrow> last_handler_ctx ctx' = None)
         \<and> log w' = log w
             @ (case last_handler ctx of
                  None \<Rightarrow> []
                | Some h \<Rightarrow> [EV_destroy_ctx (name h) (last_handler_ctx ctx)])
             @ [EV_BIO_free_all, EV_free_loader_ctx])"
  using file_open_sticky [of env uri ctx0 es0 paths0]
    loader_reachable.opened [of env uri ctx0 es0 paths0 hs]
    loader_reachable_sticky [of hs env ctx]
    file_load_sticky [of ctx hs env ui w v]
    file_close_sticky [of ctx w rc ctx' w']
  by blast

lemma file_load_ctx_p12_unread:
  "file_load (file_handlers codec_p12) list_env ctx_p12_unread ui_secret w_empty
     = Some (Inr \<lparr>ld_ctx = ctx_p12_adopted, ld_result = Some (INFO_PKEY 10),
                   ld_matchcount = 1, ld_fx = w_empty\<rparr>)"
proof -
  have rpt: "file_load_try_repeat ctx_p12_unread ui_secret w_empty
               = Inr (ctx_p12_unread, None, w_empty)"
    by (simp add: file_load_try_repeat_def ctx_p12_unread_def)
  have ok: "\<not> file_error ctx_p12_unread"
    by (simp add: file_error_def ctx_p12_unread_def)
  have rd: "file_load_read list_env ctx_p12_unread ui_secret = (Some (None, None, ''pfx''), [], [])"
    by (simp add: file_load_read_def file_read_asn1_def ctx_p12_unread_def list_env_def)
  have pre: "\<forall>h'\<in>set []. out_info (try_decode h' None None (Some ''pfx'') None ui_secret) = None"
    by simp
  have m: "out_info (try_decode (PKCS12_handler codec_p12) None None (Some ''pfx'') None
             ui_secret) = Some (INFO_PKEY 10)"
    by (simp add: codec_p12_PKCS12_match)
  have rep: "repeatable (PKCS12_handler codec_p12)" by (simp add: PKCS12_handler_def)
  have z: "OPENSSL_zalloc_ok list_env" by (simp add: list_env_def)
  have ne: "\<forall>nm buf. INFO_PKEY 10 \<noteq> INFO_EMBEDDED nm buf" by simp
  from file_load_adopts [OF rpt ok rd pre codec_p12_others_no_match m rep z ne]
  show ?thesis
    by (simp add: file_handlers_def codec_p12_PKCS12_match ctx_p12_unread_def
        ctx_p12_adopted_def w_empty_def)
qed

theorem sticky_pair_invariant_witness:
  "(file_open list_env ''/store/bundle.p12''
      :: _ + ((list_bio, p12_ctx) OSSL_STORE_LOADER_CTX option \<times> _))
     = Inr (Some ctx_p12_unread, [], [''/store/bundle.p12''])
   \<and> last_handler ctx_p12_unread = None \<and> last_handler_ctx ctx_p12_unread = None
   \<and> loader_reachable (file_handlers codec_p12) list_env ctx_p12_unread
   \<and> sticky_pair_ok ctx_p12_unread
   \<and> file_load (file_handlers codec_p12) list_env ctx_p12_unread ui_secret w_empty
       = Some (Inr \<lparr>ld_ctx = ctx_p12_adopted, ld_result = Some (INFO_PKEY 10),
                     ld_matchcount = 1, ld_fx = w_empty\<rparr>)
   \<and> sticky_pair_ok ctx_p12_adopted
   \<and> last_handler ctx_p12_adopted = Some (PKCS12_handler codec_p12)
   \<and> sticky_pair_set (file_handlers codec_p12) ui_secret ctx_p12_adopted
   \<and> file_close ctx_p12_adopted w_empty
       = Inr (1, ctx_p12_adopted\<lparr>last_handler_ctx := None, last_handler := None\<rparr>,
              \<lparr>errq = [],
               log = [EV_destroy_ctx ''PKCS12''
                        (Some [INFO_CERT 20, INFO_CERT 21, INFO_CERT 22]),
                      EV_BIO_free_all, EV_free_loader_ctx]\<rparr>)"
proof -
  have o: "(file_open list_env ''/store/bundle.p12''
      :: _ + ((list_bio, p12_ctx) OSSL_STORE_LOADER_CTX option \<times> _))
     = Inr (Some ctx_p12_unread, [], [''/store/bundle.p12''])"
    by (simp add: file_open_def file_open_path_def ascii_tolower_def list_env_def
        ctx_p12_unread_def file_open_sniff_def strstr_found_def)
  have c: "file_close ctx_p12_adopted w_empty
       = Inr (1, ctx_p12_adopted\<lparr>last_handler_ctx := None, last_handler := None\<rparr>,
              \<lparr>errq = [],
               log = [EV_destroy_ctx ''PKCS12''
                        (Some [INFO_CERT 20, INFO_CERT 21, INFO_CERT 22]),
                      EV_BIO_free_all, EV_free_loader_ctx]\<rparr>)"
    by (simp add: file_close_def ctx_p12_adopted_def PKCS12_handler_def w_empty_def emit_def)
  note l = file_load_ctx_p12_unread
  note t1 = sticky_pair_invariant
    [where env = list_env and uri = "''/store/bundle.p12''" and ?ctx0.0 = ctx_p12_unread
       and ?es0.0 = "[]" and ?paths0.0 = "[''/store/bundle.p12'']"
       and hs = "file_handlers codec_p12" and ctx = ctx_p12_unread and ui = ui_secret
       and w = w_empty
       and v = "\<lparr>ld_ctx = ctx_p12_adopted, ld_result = Some (INFO_PKEY 10),
                  ld_matchcount = 1, ld_fx = w_empty\<rparr>"]
  from t1 o have a: "last_handler ctx_p12_unread = None \<and> last_handler_ctx ctx_p12_unread = None
      \<and> loader_reachable (file_handlers codec_p12) list_env ctx_p12_unread"
    by blast
  with t1 have b: "sticky_pair_ok ctx_p12_unread" by blast
  with t1 l have d: "sticky_pair_ok ctx_p12_adopted" by simp
  have e: "last_handler ctx_p12_adopted = Some (PKCS12_handler codec_p12)"
    by (simp add: ctx_p12_adopted_def)
  from t1 b l e a have g: "sticky_pair_set (file_handlers codec_p12) ui_secret ctx_p12_adopted"
    by simp
  from o a b l d e g c show ?thesis by blast
qed

subsection \<open>Two handlers accept the same blob, and none leaves a context\<close>

text \<open>The other handlers of the table have no \<^verbatim>\<open>destroy_ctx\<close> and leave \<^verbatim>\<open>*handler_ctx\<close>
  alone.  When the PKCS12 handler rejects a blob and two or more of them accept it, every
  info they produced is given to \<^verbatim>\<open>OSSL_STORE_INFO_free\<close> in the order produced, the
  ambiguity error is raised last, and \<^verbatim>\<open>file_load\<close> returns \<^verbatim>\<open>NULL\<close> after that one read.\<close>

lemma file_load_try_handler_plain_match:
  assumes "out_info (try_decode h pn ph (Some d) None ui) = Some j"
    and "out_ctx (try_decode h pn ph (Some d) None ui) = None"
    and "destroy_ctx h = None"
    and "handler_ctx st = None"
  shows "file_load_try_handler pn ph d ui h st
           = Inr (if matchcount st = 0
                  then st\<lparr>matchcount := 1, result := Some j, handler_ctx := None,
                          matching_handlers := matching_handlers st @ [h],
                          pass_fx := raise_err (out_errs (try_decode h pn ph (Some d) None ui))
                                       (pass_fx st)\<rparr>
                  else st\<lparr>matchcount := matchcount st + 1, result := None,
                          handler_ctx := None,
                          matching_handlers := matching_handlers st @ [h],
                          pass_fx := emit (info_free (result st) @ [EV_info_free j])
                                       (raise_err (out_errs (try_decode h pn ph (Some d) None ui))
                                          (pass_fx st))\<rparr>)"
  using assms by (simp add: file_load_try_handler_def Let_def)

lemma file_load_try_handlers_plain:
  assumes "\<forall>h\<in>set hs. destroy_ctx h = None
              \<and> out_ctx (try_decode h pn ph (Some d) None ui) = None"
    and "handler_ctx st = None"
    and "matchcount st = int (length seen)"
    and "result st = (if length seen = 1 then Some (hd seen) else None)"
    and "log (pass_fx st) = l0 @ (if 2 \<le> length seen then map EV_info_free seen else [])"
  shows "\<exists>st'. file_load_try_handlers pn ph d ui hs st = Inr st'
           \<and> handler_ctx st' = None
           \<and> matchcount st'
               = int (length (seen @ List.map_filter
                                       (\<lambda>h. out_info (try_decode h pn ph (Some d) None ui)) hs))
           \<and> result st'
               = (if length (seen @ List.map_filter
                                      (\<lambda>h. out_info (try_decode h pn ph (Some d) None ui)) hs) = 1
                  then Some (hd (seen @ List.map_filter
                                   (\<lambda>h. out_info (try_decode h pn ph (Some d) None ui)) hs))
                  else None)
           \<and> log (pass_fx st')
               = l0 @ (if 2 \<le> length (seen @ List.map_filter
                                      (\<lambda>h. out_info (try_decode h pn ph (Some d) None ui)) hs)
                       then map EV_info_free
                              (seen @ List.map_filter
                                        (\<lambda>h. out_info (try_decode h pn ph (Some d) None ui)) hs)
                       else [])
           \<and> (\<exists>es. errq (pass_fx st') = errq (pass_fx st) @ es)
           \<and> matching_handlers st'
               = matching_handlers st
                 @ filter (\<lambda>h. out_info (try_decode h pn ph (Some d) None ui) \<noteq> None) hs"
  using assms
proof (induction hs arbitrary: st seen)
  case Nil
  then show ?case by (simp add: map_filter_simps)
next
  case (Cons h hs)
  show ?case
  proof (cases "out_info (try_decode h pn ph (Some d) None ui)")
    case None
    let ?st1 = "st\<lparr>pass_fx := raise_err (out_errs (try_decode h pn ph (Some d) None ui)
                     @ [OSSL_STOREerr F_FILE_LOAD_TRY_DECODE R_IS_NOT_A [name h]]) (pass_fx st)\<rparr>"
    have 1: "file_load_try_handler pn ph d ui h st = Inr ?st1"
      using None by (rule file_load_try_handler_no_match)
    from Cons.prems have
      "\<exists>st'. file_load_try_handlers pn ph d ui hs ?st1 = Inr st'
           \<and> handler_ctx st' = None
           \<and> matchcount st'
               = int (length (seen @ List.map_filter
                                       (\<lambda>h. out_info (try_decode h pn ph (Some d) None ui)) hs))
           \<and> result st'
               = (if length (seen @ List.map_filter
                                      (\<lambda>h. out_info (try_decode h pn ph (Some d) None ui)) hs) = 1
                  then Some (hd (seen @ List.map_filter
                                   (\<lambda>h. out_info (try_decode h pn ph (Some d) None ui)) hs))
                  else None)
           \<and> log (pass_fx st')
               = l0 @ (if 2 \<le> length (seen @ List.map_filter
                                      (\<lambda>h. out_info (try_decode h pn ph (Some d) None ui)) hs)
                       then map EV_info_free
                              (seen @ List.map_filter
                                        (\<lambda>h. out_info (try_decode h pn ph (Some d) None ui)) hs)
                       else [])
           \<and> (\<exists>es. errq (pass_fx st') = errq (pass_fx ?st1) @ es)
           \<and> matching_handlers st'
               = matching_handlers ?st1
                 @ filter (\<lambda>h. out_info (try_decode h pn ph (Some d) None ui) \<noteq> None) hs"
      by (intro Cons.IH) simp_all
    then show ?thesis
      using None by (auto simp: 1 map_filter_simps raise_err_def)
  next
    case (Some j)
    from Cons.prems(1) have p: "destroy_ctx h = None"
      "out_ctx (try_decode h pn ph (Some d) None ui) = None"
      by simp_all
    let ?st1 = "if matchcount st = 0
                  then st\<lparr>matchcount := 1, result := Some j, handler_ctx := None,
                          matching_handlers := matching_handlers st @ [h],
                          pass_fx := raise_err (out_errs (try_decode h pn ph (Some d) None ui))
                                       (pass_fx st)\<rparr>
                  else st\<lparr>matchcount := matchcount st + 1, result := None,
                          handler_ctx := None,
                          matching_handlers := matching_handlers st @ [h],
                          pass_fx := emit (info_free (result st) @ [EV_info_free j])
                                       (raise_err (out_errs (try_decode h pn ph (Some d) None ui))
                                          (pass_fx st))\<rparr>"
    have 1: "file_load_try_handler pn ph d ui h st = Inr ?st1"
      using Some p(2) p(1) Cons.prems(2) by (rule file_load_try_handler_plain_match)
    have a: "handler_ctx ?st1 = None" by simp
    have b: "matchcount ?st1 = int (length (seen @ [j]))"
      using Cons.prems(3) by simp
    have c: "result ?st1 = (if length (seen @ [j]) = 1 then Some (hd (seen @ [j])) else None)"
      using Cons.prems(3) by (cases seen) auto
    have e: "log (pass_fx ?st1)
               = l0 @ (if 2 \<le> length (seen @ [j]) then map EV_info_free (seen @ [j]) else [])"
    proof (cases seen)
      case Nil
      with Cons.prems(3,5) show ?thesis by simp
    next
      case (Cons i rest)
      show ?thesis
      proof (cases rest)
        case Nil
        with Cons Cons.prems(3,4,5) show ?thesis by (simp add: info_free_def)
      next
        case (Cons i2 rest2)
        with \<open>seen = i # rest\<close> Cons.prems(3,4,5) show ?thesis by (simp add: info_free_def)
      qed
    qed
    from Cons.prems(1) have q: "\<forall>h\<in>set hs. destroy_ctx h = None
              \<and> out_ctx (try_decode h pn ph (Some d) None ui) = None"
      by simp
    from Cons.IH [OF q a b c e] obtain st' where
      r: "file_load_try_handlers pn ph d ui hs ?st1 = Inr st'"
        "handler_ctx st' = None"
        "matchcount st'
           = int (length ((seen @ [j]) @ List.map_filter
                            (\<lambda>h. out_info (try_decode h pn ph (Some d) None ui)) hs))"
        "result st'
           = (if length ((seen @ [j]) @ List.map_filter
                           (\<lambda>h. out_info (try_decode h pn ph (Some d) None ui)) hs) = 1
              then Some (hd ((seen @ [j]) @ List.map_filter
                               (\<lambda>h. out_info (try_decode h pn ph (Some d) None ui)) hs))
              else None)"
        "log (pass_fx st')
           = l0 @ (if 2 \<le> length ((seen @ [j]) @ List.map_filter
                                  (\<lambda>h. out_info (try_decode h pn ph (Some d) None ui)) hs)
                   then map EV_info_free
                          ((seen @ [j]) @ List.map_filter
                                    (\<lambda>h. out_info (try_decode h pn ph (Some d) None ui)) hs)
                   else [])"
        "\<exists>es. errq (pass_fx st') = errq (pass_fx ?st1) @ es"
        "matching_handlers st'
           = matching_handlers ?st1
             @ filter (\<lambda>h. out_info (try_decode h pn ph (Some d) None ui) \<noteq> None) hs"
      by blast
    have f: "\<exists>es. errq (pass_fx ?st1) = errq (pass_fx st) @ es"
      by (simp add: raise_err_def emit_def)
    have g: "matching_handlers ?st1 = matching_handlers st @ [h]" by simp
    have m: "List.map_filter (\<lambda>h. out_info (try_decode h pn ph (Some d) None ui)) (h # hs)
               = j # List.map_filter (\<lambda>h. out_info (try_decode h pn ph (Some d) None ui)) hs"
      using Some by (simp add: map_filter_simps)
    have fl: "filter (\<lambda>h. out_info (try_decode h pn ph (Some d) None ui) \<noteq> None) (h # hs)
               = h # filter (\<lambda>h. out_info (try_decode h pn ph (Some d) None ui) \<noteq> None) hs"
      using Some by simp
    from r(6) f obtain es where es: "errq (pass_fx st') = errq (pass_fx st) @ es"
      by (metis append.assoc)
    have "file_load_try_handlers pn ph d ui (h # hs) st = Inr st'"
      by (simp only: file_load_try_handlers.simps 1 sum.case r(1))
    with r(2-5) r(7) es g show ?thesis
      unfolding m fl by (intro exI [of _ st']) (simp del: filter.simps)
  qed
qed

lemma out_ctx_X509Certificate:
  "out_ctx (try_decode_X509Certificate cx pn ph blob pctx ui) = pctx"
  by (simp add: try_decode_X509Certificate_def no_match_def Let_def split: option.splits)

lemma out_ctx_X509CRL: "out_ctx (try_decode_X509CRL cx pn ph blob pctx ui) = pctx"
  by (simp add: try_decode_X509CRL_def no_match_def split: option.splits)

lemma out_ctx_params: "out_ctx (try_decode_params cx pn ph blob pctx ui) = pctx"
  by (simp add: try_decode_params_def no_match_def split: option.splits prod.splits)

lemma out_ctx_PUBKEY: "out_ctx (try_decode_PUBKEY cx pn ph blob pctx ui) = pctx"
  by (simp add: try_decode_PUBKEY_def no_match_def split: option.splits)

lemma out_ctx_PrivateKey: "out_ctx (try_decode_PrivateKey cx pn ph blob pctx ui) = pctx"
  by (simp add: try_decode_PrivateKey_def no_match_def split: option.splits prod.splits)

lemma file_handlers_tl_plain:
  "\<forall>h\<in>set (tl (file_handlers cx)).
     destroy_ctx h = None \<and> \<not> repeatable h
     \<and> out_ctx (try_decode h pn ph blob None ui) = None"
  by (simp add: file_handlers_def X509Certificate_handler_def X509CRL_handler_def
      params_handler_def PUBKEY_handler_def PrivateKey_handler_def out_ctx_X509Certificate
      out_ctx_X509CRL out_ctx_params out_ctx_PUBKEY out_ctx_PrivateKey)

lemma length_map_filter:
  "length (List.map_filter f xs) = length (filter (\<lambda>x. f x \<noteq> None) xs)"
  by (induction xs) (auto simp: map_filter_simps split: option.splits)

lemma raise_err_errq [simp]: "errq (raise_err es w) = errq w @ es"
  by (simp add: raise_err_def)

lemma file_load_try_decode_pass_ambiguous:
  assumes z: "OPENSSL_zalloc_ok env"
    and p12: "out_info (try_decode (PKCS12_handler cx) pn ph (Some d) None ui) = None"
    and two: "2 \<le> length (List.map_filter
                          (\<lambda>h. out_info (try_decode h pn ph (Some d) None ui))
                          (tl (file_handlers cx)))"
  shows "\<exists>es. file_load_try_decode_pass (file_handlers cx) env (Some c) pn ph d ui mc w
           = Inr \<lparr>ret_ctx = Some c, ret_info = None,
                  ret_matchcount =
                    int (length (List.map_filter
                                   (\<lambda>h. out_info (try_decode h pn ph (Some d) None ui))
                                   (tl (file_handlers cx)))),
                  ret_fx =
                    \<lparr>errq = errq w @ es
                            @ [OSSL_STOREerr F_FILE_LOAD_TRY_DECODE R_AMBIGUOUS_CONTENT_TYPE []],
                     log = log w @ map EV_info_free
                             (List.map_filter
                                (\<lambda>h. out_info (try_decode h pn ph (Some d) None ui))
                                (tl (file_handlers cx)))\<rparr>\<rparr>"
proof -
  let ?js = "List.map_filter (\<lambda>h. out_info (try_decode h pn ph (Some d) None ui))
               (tl (file_handlers cx))"
  let ?e0 = "out_errs (try_decode (PKCS12_handler cx) pn ph (Some d) None ui)
               @ [OSSL_STOREerr F_FILE_LOAD_TRY_DECODE R_IS_NOT_A [name (PKCS12_handler cx)]]"
  let ?st0 = "\<lparr>matchcount = 0, result = None, handler_ctx = None, matching_handlers = [],
               pass_fx = w\<rparr>"
  let ?st1 = "\<lparr>matchcount = 0, result = None, handler_ctx = None, matching_handlers = [],
               pass_fx = raise_err ?e0 w\<rparr>"
  have 1: "file_load_try_handler pn ph d ui (PKCS12_handler cx) ?st0 = Inr ?st1"
    using file_load_try_handler_no_match [OF p12, of ?st0] by simp
  have pl: "\<forall>h\<in>set (tl (file_handlers cx)).
     destroy_ctx h = None \<and> out_ctx (try_decode h pn ph (Some d) None ui) = None"
    using file_handlers_tl_plain [of cx pn ph "Some d" ui] by blast
  have "\<exists>st'. file_load_try_handlers pn ph d ui (tl (file_handlers cx)) ?st1 = Inr st'
           \<and> handler_ctx st' = None
           \<and> matchcount st' = int (length ([] @ ?js))
           \<and> result st' = (if length ([] @ ?js) = 1 then Some (hd ([] @ ?js)) else None)
           \<and> log (pass_fx st')
               = log w @ (if 2 \<le> length ([] @ ?js) then map EV_info_free ([] @ ?js) else [])
           \<and> (\<exists>es. errq (pass_fx st') = errq (pass_fx ?st1) @ es)
           \<and> matching_handlers st'
               = matching_handlers ?st1
                 @ filter (\<lambda>h. out_info (try_decode h pn ph (Some d) None ui) \<noteq> None)
                     (tl (file_handlers cx))"
    by (rule file_load_try_handlers_plain [OF pl]) simp_all
  then obtain st' es where
    r: "file_load_try_handlers pn ph d ui (tl (file_handlers cx)) ?st1 = Inr st'"
      "matchcount st' = int (length ?js)" "result st' = None"
      "log (pass_fx st') = log w @ map EV_info_free ?js"
      "errq (pass_fx st') = errq w @ ?e0 @ es"
      "matching_handlers st'
         = filter (\<lambda>h. out_info (try_decode h pn ph (Some d) None ui) \<noteq> None)
             (tl (file_handlers cx))"
    using two by auto
  have hs: "file_handlers cx = PKCS12_handler cx # tl (file_handlers cx)"
    by (simp add: file_handlers_def)
  have all: "file_load_try_handlers pn ph d ui (file_handlers cx) ?st0 = Inr st'"
    by (subst hs) (simp only: file_load_try_handlers.simps 1 sum.case r(1))
  have nr: "\<forall>h\<in>set (matching_handlers st'). \<not> repeatable h"
    using file_handlers_tl_plain [of cx pn ph "Some d" ui] r(6) by auto
  have "length (matching_handlers st') = length ?js"
    unfolding r(6) by (rule length_map_filter [symmetric])
  with two have ne: "matching_handlers st' \<noteq> []" by auto
  then obtain h0 rest where m: "matching_handlers st' = h0 # rest"
    by (cases "matching_handlers st'") auto
  with nr have nr0: "\<not> repeatable h0" by simp
  have fx: "raise_err [OSSL_STOREerr F_FILE_LOAD_TRY_DECODE R_AMBIGUOUS_CONTENT_TYPE []]
              (pass_fx st')
            = \<lparr>errq = errq w @ (?e0 @ es)
                      @ [OSSL_STOREerr F_FILE_LOAD_TRY_DECODE R_AMBIGUOUS_CONTENT_TYPE []],
               log = log w @ map EV_info_free ?js\<rparr>"
    using r(4,5) by (simp add: raise_err_def)
  from two have n: "?js \<noteq> []" "1 < int (length ?js)" by auto
  have "file_load_try_decode_pass (file_handlers cx) env (Some c) pn ph d ui mc w
           = Inr \<lparr>ret_ctx = Some c, ret_info = None, ret_matchcount = int (length ?js),
                  ret_fx = \<lparr>errq = errq w @ (?e0 @ es)
                      @ [OSSL_STOREerr F_FILE_LOAD_TRY_DECODE R_AMBIGUOUS_CONTENT_TYPE []],
                     log = log w @ map EV_info_free ?js\<rparr>\<rparr>"
    using z n r(2,3) m nr0
    by (simp add: file_load_try_decode_pass_def all fx Let_def)
  then show ?thesis by blast
qed

lemma file_load_ambiguous_without_context:
  assumes rpt: "file_load_try_repeat ctx ui w = Inr (ctx1, None, w1)"
    and ok: "\<not> file_error ctx1"
    and read: "file_load_read env ctx1 ui = (Some (pn, ph, d), bp, es)"
    and z: "OPENSSL_zalloc_ok env"
    and p12: "out_info (try_decode (PKCS12_handler cx) pn ph (Some d) None ui) = None"
    and two: "2 \<le> length (List.map_filter
                          (\<lambda>h. out_info (try_decode h pn ph (Some d) None ui))
                          (tl (file_handlers cx)))"
  shows "\<exists>es'. file_load (file_handlers cx) env ctx ui w
           = Some (Inr \<lparr>ld_ctx = ctx1\<lparr>file := bp\<rparr>, ld_result = None,
                        ld_matchcount =
                          int (length (List.map_filter
                                         (\<lambda>h. out_info (try_decode h pn ph (Some d) None ui))
                                         (tl (file_handlers cx)))),
                        ld_fx =
                          \<lparr>errq = errq w1 @ es'
                                  @ [OSSL_STOREerr F_FILE_LOAD_TRY_DECODE
                                       R_AMBIGUOUS_CONTENT_TYPE []],
                           log = log w1 @ map EV_info_free
                                   (List.map_filter
                                      (\<lambda>h. out_info (try_decode h pn ph (Some d) None ui))
                                      (tl (file_handlers cx)))\<rparr>\<rparr>)"
proof -
  let ?js = "List.map_filter (\<lambda>h. out_info (try_decode h pn ph (Some d) None ui))
               (tl (file_handlers cx))"
  let ?v0 = "\<lparr>ld_ctx = ctx1, ld_result = None, ld_matchcount = - 1, ld_fx = w1\<rparr>"
  from file_load_try_decode_pass_ambiguous
    [OF z p12 two, of "ctx1\<lparr>file := bp\<rparr>" "- 1" "raise_err es w1"]
  obtain es0 where
    p: "file_load_try_decode_pass (file_handlers cx) env (Some (ctx1\<lparr>file := bp\<rparr>)) pn ph d ui
          (- 1) (raise_err es w1)
        = Inr \<lparr>ret_ctx = Some (ctx1\<lparr>file := bp\<rparr>), ret_info = None,
               ret_matchcount = int (length ?js),
               ret_fx = \<lparr>errq = errq (raise_err es w1) @ es0
                            @ [OSSL_STOREerr F_FILE_LOAD_TRY_DECODE R_AMBIGUOUS_CONTENT_TYPE []],
                         log = log (raise_err es w1) @ map EV_info_free ?js\<rparr>\<rparr>"
    by blast
  let ?r = "\<lparr>ret_ctx = Some (ctx1\<lparr>file := bp\<rparr>), ret_info = None,
               ret_matchcount = int (length ?js),
               ret_fx = \<lparr>errq = errq (raise_err es w1) @ es0
                            @ [OSSL_STOREerr F_FILE_LOAD_TRY_DECODE R_AMBIGUOUS_CONTENT_TYPE []],
                         log = log (raise_err es w1) @ map EV_info_free ?js\<rparr>\<rparr>"
  have t: "file_load_try_decode (file_handlers cx) env (Some (ctx1\<lparr>file := bp\<rparr>)) pn ph d ui
             (- 1) (raise_err es w1) = Some (Inr ?r)"
    by (subst file_load_try_decode.simps) (simp add: p)
  let ?v1 = "\<lparr>ld_ctx = ctx1\<lparr>file := bp\<rparr>, ld_result = None,
               ld_matchcount = int (length ?js),
               ld_fx = \<lparr>errq = errq w1 @ es @ es0
                            @ [OSSL_STOREerr F_FILE_LOAD_TRY_DECODE R_AMBIGUOUS_CONTENT_TYPE []],
                        log = log w1 @ map EV_info_free ?js\<rparr>\<rparr>"
  have b: "file_load_body (file_handlers cx) env ui ?v0 = Some (Inr ?v1)"
    by (simp add: file_load_body_def read t Let_def)
  from two have n: "?js \<noteq> []" "1 < int (length ?js)" by auto
  have c: "file_load_continue env ?v1 = Inr False"
    using n by (simp add: file_load_continue_def)
  have l: "file_load_loop (file_handlers cx) env ui ?v0 = Some (Inr ?v1)"
    by (subst file_load_loop.simps) (simp add: b c)
  have "file_load (file_handlers cx) env ctx ui w = Some (Inr ?v1)"
    using n by (simp add: file_load_def rpt ok l)
  then show ?thesis by (intro exI [of _ "es @ es0"]) simp
qed

subsection \<open>The registered handlers produce no embedded blob\<close>




lemma OSSL_STORE_INFO_new_cases:
  "OSSL_STORE_INFO_new cx i = None \<or> OSSL_STORE_INFO_new cx i = Some i"
  by (simp add: OSSL_STORE_INFO_new_def)











end
